theory Spec2Isabelle
  imports Complex_Main "HOL-Library.Word" "HOL-Library.AList"
begin

section \<open>Strings, numbers and errors of the Python program\<close>

text \<open>
  A Python \<^verbatim>\<open>str\<close> is a sequence of Unicode code points; it is modelled as the list of
  their numbers, so that the calibration string and the Unicode white space that
  \<^verbatim>\<open>str.split()\<close> and \<^verbatim>\<open>str.strip()\<close> recognise are exact. \<open>str\<close> embeds an ASCII
  literal. A Python \<^verbatim>\<open>int\<close> is an unbounded integer; a Python \<^verbatim>\<open>float\<close> is the real number
  it stands for, with the rounding of every operation (next section).
\<close>

type_synonym pystr = "nat list"

definition str :: "string \<Rightarrow> pystr" where
  "str s = map of_char s"

text \<open>The exceptions the program raises, one constructor for each raise site or library failure.\<close>

datatype error =
    ValueError_position
  | ValueError_mode
  | IOError_same_file
  | IOError_font_not_found
  | IOError_unsupported_ext
  | RuntimeError_platform
  | KeyError
  | TypeError
  | OSError
  | JSONDecodeError
  | ExternalError

text \<open>
  A JSON value as \<^verbatim>\<open>json.load\<close> returns it and \<^verbatim>\<open>json.dumps\<close> takes it: a string, an
  integer, a float, a list, or something else (\<^verbatim>\<open>null\<close>, a boolean, a nested object). A
  Python \<^verbatim>\<open>dict\<close> with string keys is an association list in insertion order; the
  options of a job are one.
\<close>

datatype jvalue = JStr pystr | JInt int | JFloat real | JList "jvalue list" | JOther

type_synonym pydict = "(pystr \<times> jvalue) list"

text \<open>
  White space as \<^verbatim>\<open>str.isspace\<close> decides it for a single code point: the set that
  \<^verbatim>\<open>split()\<close> without a separator and \<^verbatim>\<open>strip()\<close> use.
\<close>

definition is_space :: "nat \<Rightarrow> bool" where
  "is_space c \<longleftrightarrow>
     (9 \<le> c \<and> c \<le> 13) \<or> (28 \<le> c \<and> c \<le> 32) \<or> c = 133 \<or> c = 160 \<or> c = 5760
     \<or> (8192 \<le> c \<and> c \<le> 8202) \<or> c = 8232 \<or> c = 8233 \<or> c = 8239 \<or> c = 8287
     \<or> c = 12288"

text \<open>\<^verbatim>\<open>s.split()\<close>: the maximal runs of characters that are not white space.\<close>

function split_ws :: "pystr \<Rightarrow> pystr list" where
  "split_ws s =
     (case dropWhile is_space s of
        [] \<Rightarrow> []
      | c # cs \<Rightarrow>
          (c # takeWhile (\<lambda>x. \<not> is_space x) cs) # split_ws (dropWhile (\<lambda>x. \<not> is_space x) cs))"
  by pat_completeness auto
termination
proof (relation "measure length")
  show "wf (measure length)" by simp
next
  fix s :: pystr and c cs
  assume eq: "dropWhile is_space s = c # cs"
  have "length (dropWhile (\<lambda>x. \<not> is_space x) cs) \<le> length cs"
    by (rule length_dropWhile_le)
  also have "length cs < length (dropWhile is_space s)"
    by (simp add: eq)
  also have "\<dots> \<le> length s"
    by (rule length_dropWhile_le)
  finally show "(dropWhile (\<lambda>x. \<not> is_space x) cs, s) \<in> measure length"
    by simp
qed

text \<open>\<^verbatim>\<open>s.split(sep)\<close> for a one-character separator: one more piece than separators.\<close>

fun split_on :: "nat \<Rightarrow> pystr \<Rightarrow> pystr list" where
  "split_on sep [] = [[]]"
| "split_on sep (c # cs) =
     (if c = sep then [] # split_on sep cs
      else (case split_on sep cs of
              [] \<Rightarrow> [[c]]
            | p # ps \<Rightarrow> (c # p) # ps))"

text \<open>\<^verbatim>\<open>s.strip()\<close>: white space removed at both ends.\<close>

definition strip :: "pystr \<Rightarrow> pystr" where
  "strip s = rev (dropWhile is_space (rev (dropWhile is_space s)))"

text \<open>\<^verbatim>\<open>int(x)\<close> of a float: truncation towards zero.\<close>

definition py_int :: "real \<Rightarrow> int" where
  "py_int x = (if 0 \<le> x then \<lfloor>x\<rfloor> else \<lceil>x\<rceil>)"

section \<open>Floating-point arithmetic\<close>

text \<open>
  A Python \<^verbatim>\<open>float\<close> is an IEEE 754 double: a number with 53 significant bits. Every
  operation gives the double nearest to the exact result, a tie going to the even
  significand. \<open>round_even\<close> is that rounding to an integer and \<open>fround p\<close> the rounding
  to \<open>p\<close> significant bits: the number is scaled by the power of two that brings it into
  \<open>[2^(p-1), 2^p)\<close>, rounded to an integer and scaled back. \<open>dbl\<close> is the rounding to a
  double and \<open>sgl\<close> the rounding to a C \<^verbatim>\<open>float\<close> of 24 significant bits.

  The numbers are finite and the exponent is not bounded: the infinities, nan, and
  the overflow and gradual underflow that end in them or near zero are outside the
  model. They are no numbers of a style (a fraction, a scale factor, a colour
  component), and \<^verbatim>\<open>int()\<close>, which raises on an infinity and on nan, is total on the
  numbers that are left.
\<close>

definition round_even :: "real \<Rightarrow> int" where
  "round_even r =
     (let f = \<lfloor>r\<rfloor> in
      if r - of_int f < 1 / 2 then f
      else if 1 / 2 < r - of_int f then f + 1
      else if even f then f else f + 1)"

definition fround :: "nat \<Rightarrow> real \<Rightarrow> real" where
  "fround p x =
     (if x = 0 then 0
      else let u = 2 powr of_int (\<lfloor>log 2 \<bar>x\<bar>\<rfloor> + 1 - int p)
           in sgn x * (of_int (round_even (\<bar>x\<bar> / u)) * u))"

definition dbl :: "real \<Rightarrow> real" where
  "dbl = fround 53"

definition sgl :: "real \<Rightarrow> real" where
  "sgl = fround 24"

text \<open>
  \<^verbatim>\<open>x * y\<close>, \<^verbatim>\<open>x + y\<close> and \<^verbatim>\<open>x - y\<close> of two Python numbers of which at least one is a
  float. An operand that is an \<^verbatim>\<open>int\<close> is first converted to the nearest double; an
  operand that is a double is its own conversion (\<open>dbl_idem\<close> below). A literal such as
  \<^verbatim>\<open>0.04\<close> is the double nearest to the decimal fraction, which the conversion of the
  operand gives as well. A comparison of an \<^verbatim>\<open>int\<close> with a float is exact in Python and
  is the comparison of the two numbers.
\<close>

definition fmul :: "real \<Rightarrow> real \<Rightarrow> real" where
  "fmul x y = dbl (dbl x * dbl y)"

definition fadd :: "real \<Rightarrow> real \<Rightarrow> real" where
  "fadd x y = dbl (dbl x + dbl y)"

definition fsub :: "real \<Rightarrow> real \<Rightarrow> real" where
  "fsub x y = dbl (dbl x - dbl y)"

section \<open>The watermark compositor: \<^verbatim>\<open>add_watermark\<close>\<close>

subsection \<open>Parsing the position (lines 37 to 49)\<close>

text \<open>
  The loop over \<^verbatim>\<open>position.split()\<close>. The state is the pair \<open>(h_pos, v_pos)\<close>, each
  \<open>-1\<close> (right, bottom) or \<open>1\<close> (left, top); a token that is none of the four words
  raises \<^verbatim>\<open>ValueError\<close>.
\<close>

fun position_loop :: "int \<times> int \<Rightarrow> pystr list \<Rightarrow> error + int \<times> int" where
  "position_loop (h_pos, v_pos) [] = Inr (h_pos, v_pos)"
| "position_loop (h_pos, v_pos) (pos # rest) =
     (if pos = str ''right'' then position_loop (- 1, v_pos) rest
      else if pos = str ''left'' then position_loop (1, v_pos) rest
      else if pos = str ''bottom'' then position_loop (h_pos, - 1) rest
      else if pos = str ''top'' then position_loop (h_pos, 1) rest
      else Inl ValueError_position)"

definition parse_position :: "pystr \<Rightarrow> error + int \<times> int" where
  "parse_position position = position_loop (- 1, - 1) (split_ws position)"

subsection \<open>Auto-sizing the font (lines 52 to 61)\<close>

text \<open>
  The calibration string \<^verbatim>\<open>'...@02_yuyuko'\<close> of line 55, as its sixteen code points (the
  first, second, fourth, fifth and sixth are not ASCII).
\<close>

definition calibration :: pystr where
  "calibration = [25668, 24433, 47, 21518, 26399, 65306] @ str ''@02_yuyuko''"

text \<open>
  The font engine is outside the repository. \<open>load_error n\<close> is the exception that lines
  54 and 55 raise at font size \<open>n\<close>, if any: \<^verbatim>\<open>ImageFont.truetype(font_file, n)\<close> when the
  engine cannot load the font at that size (FreeType takes no pixel size above 65535),
  or \<^verbatim>\<open>getsize\<close> of the calibration string. \<open>measure_at n s\<close> stands for
  \<^verbatim>\<open>ImageFont.truetype(font_file, n).getsize(s)\<close> where the font loads: the width and
  height in pixels of the string \<open>s\<close> at font size \<open>n\<close>. The \<^verbatim>\<open>while True\<close> loop has no
  bound in the source, so it is a partial function: \<open>None\<close> is a loop that never leaves,
  \<open>Some (Inl e)\<close> a loop that the exception \<open>e\<close> leaves, and \<open>Some (Inr (sz, h))\<close> the
  \<^verbatim>\<open>break\<close> at the size \<open>sz\<close> (the source's \<^verbatim>\<open>size\<close>) with the measured line height \<open>h\<close>.
\<close>

partial_function (option) size_loop ::
    "(nat \<Rightarrow> error option) \<Rightarrow> (nat \<Rightarrow> pystr \<Rightarrow> int \<times> int) \<Rightarrow> real \<Rightarrow> nat
      \<Rightarrow> (error + nat \<times> int) option" where
  "size_loop load_error measure_at threshold sz =
     (case load_error sz of
        Some e \<Rightarrow> Some (Inl e)
      | None \<Rightarrow>
          (let line_height = snd (measure_at sz calibration) in
           if real_of_int line_height > threshold then Some (Inr (sz, line_height))
           else size_loop load_error measure_at threshold (sz + 2)))"

text \<open>
  The right-hand side of the comparison on line 56, for an image of the given size:
  \<^verbatim>\<open>min(*input_image.size) * 0.04 * font_size\<close>, two double products from left to right.
\<close>

definition size_threshold :: "nat \<times> nat \<Rightarrow> real \<Rightarrow> real" where
  "size_threshold image_size font_size =
     fmul (fmul (real (min (fst image_size) (snd image_size))) 0.04) font_size"

definition auto_size ::
    "(nat \<Rightarrow> error option) \<Rightarrow> (nat \<Rightarrow> pystr \<Rightarrow> int \<times> int) \<Rightarrow> nat \<times> nat \<Rightarrow> real
      \<Rightarrow> (error + nat \<times> int) option" where
  "auto_size load_error measure_at image_size font_size =
     size_loop load_error measure_at (size_threshold image_size font_size) 2"

subsection \<open>The bounding box of the text (lines 64 to 70)\<close>

text \<open>
  \<open>font\<close> is the font at the chosen size: \<^verbatim>\<open>font.getsize\<close>. Line 69 is
  \<^verbatim>\<open>(wm_height + h) + spacing\<close> and line 70 one more subtraction, each rounded.
\<close>

fun bbox_loop :: "(pystr \<Rightarrow> int \<times> int) \<Rightarrow> real \<Rightarrow> int \<times> real \<Rightarrow> pystr list \<Rightarrow> int \<times> real" where
  "bbox_loop font spacing (wm_width, wm_height) [] = (wm_width, wm_height)"
| "bbox_loop font spacing (wm_width, wm_height) (line # rest) =
     (let (w, h) = font line in
      bbox_loop font spacing
        (max wm_width w, fadd (fadd wm_height (real_of_int h)) spacing) rest)"

definition text_bbox :: "(pystr \<Rightarrow> int \<times> int) \<Rightarrow> real \<Rightarrow> pystr list \<Rightarrow> int \<times> real" where
  "text_bbox font spacing lines =
     (let (wm_width, wm_height) = bbox_loop font spacing (0, 0) lines in
      (wm_width, fsub wm_height spacing))"

subsection \<open>Laying out the lines: \<^verbatim>\<open>plot_lines\<close> (lines 73 to 86)\<close>

text \<open>
  One call of \<^verbatim>\<open>draw.text\<close>: the position \<open>xy\<close>, the line and the alignment. \<open>x\<close> is an
  integer (image width, line width and margin are); \<open>y\<close> is the integer \<open>margin\<close> for
  the first line of a text at the top and a float everywhere else.
\<close>

record draw_call =
  dc_x :: int
  dc_y :: real
  dc_line :: pystr
  dc_align :: pystr

text \<open>
  The \<^verbatim>\<open>for line in lines\<close> loop of \<^verbatim>\<open>plot_lines\<close> with its cursor \<open>y\<close>, as the list of the
  \<^verbatim>\<open>draw.text\<close> calls it makes, in order. Line 85 is \<^verbatim>\<open>y = y + (h + spacing)\<close> and line 75
  \<^verbatim>\<open>(im_h - wm_height) - margin\<close>.
\<close>

fun plot_loop ::
    "(pystr \<Rightarrow> int \<times> int) \<Rightarrow> int \<Rightarrow> int \<Rightarrow> real \<Rightarrow> int \<Rightarrow> real \<Rightarrow> pystr list \<Rightarrow> draw_call list" where
  "plot_loop font im_w margin spacing h_pos y [] = []"
| "plot_loop font im_w margin spacing h_pos y (line # rest) =
     (let (w, h) = font line;
          x = (if h_pos = - 1 then im_w - w - margin else margin)
      in \<lparr>dc_x = x, dc_y = y, dc_line = line,
          dc_align = (if h_pos = 1 then str ''left'' else str ''right'')\<rparr>
         # plot_loop font im_w margin spacing h_pos (fadd y (fadd (real_of_int h) spacing)) rest)"

definition plot_calls ::
    "(pystr \<Rightarrow> int \<times> int) \<Rightarrow> int \<Rightarrow> int \<Rightarrow> real \<Rightarrow> int \<Rightarrow> real \<Rightarrow> int \<Rightarrow> int \<Rightarrow> pystr list
      \<Rightarrow> draw_call list" where
  "plot_calls font im_w im_h wm_height margin spacing h_pos v_pos lines =
     (let y = (if v_pos = - 1 then fsub (fsub (real_of_int im_h) wm_height) (real_of_int margin)
               else real_of_int margin)
      in plot_loop font im_w margin spacing h_pos y lines)"

subsection \<open>Images and the Pillow operations the compositor calls\<close>

text \<open>
  A pixel has four 8-bit channels and an image is its size \<open>(width, height)\<close> with its
  pixel at every coordinate. (An image of another mode uses fewer channels; the
  operations below act on each channel alike.) A band is one channel of an image.
\<close>

record rgba =
  red :: "8 word"
  green :: "8 word"
  blue :: "8 word"
  alpha :: "8 word"

record image =
  im_size :: "nat \<times> nat"
  im_px :: "nat \<times> nat \<Rightarrow> rgba"

type_synonym band = "nat \<times> nat \<Rightarrow> 8 word"

text \<open>Pillow stores an integer into a channel clipped to 0..255.\<close>

definition clip8 :: "int \<Rightarrow> 8 word" where
  "clip8 i = word_of_int (max 0 (min 255 i))"

text \<open>\<^verbatim>\<open>Image.new('RGBA', size, color)\<close>: every pixel is the colour.\<close>

definition image_new :: "nat \<times> nat \<Rightarrow> int \<times> int \<times> int \<times> int \<Rightarrow> image" where
  "image_new sz color =
     (case color of (r, g, b, a) \<Rightarrow>
        \<lparr>im_size = sz,
         im_px = (\<lambda>_. \<lparr>red = clip8 r, green = clip8 g, blue = clip8 b, alpha = clip8 a\<rparr>)\<rparr>)"

text \<open>\<^verbatim>\<open>im.split()[3]\<close>, \<^verbatim>\<open>band.point(f)\<close> and \<^verbatim>\<open>im.putalpha(band)\<close>.\<close>

definition alpha_band :: "image \<Rightarrow> band" where
  "alpha_band im = (\<lambda>p. alpha (im_px im p))"

definition point :: "(int \<Rightarrow> int) \<Rightarrow> band \<Rightarrow> band" where
  "point f b = (\<lambda>p. clip8 (f (uint (b p))))"

definition putalpha :: "image \<Rightarrow> band \<Rightarrow> image" where
  "putalpha im b = im\<lparr>im_px := (\<lambda>p. (im_px im p)\<lparr>alpha := b p\<rparr>)\<rparr>"

text \<open>
  \<^verbatim>\<open>ImageChops.offset(im, xoffset, yoffset)\<close>: the data moves by the offsets and wraps
  around the edges, so the pixel at \<open>(x, y)\<close> comes from \<open>(x - xoffset, y - yoffset)\<close>
  modulo the size.
\<close>

definition chops_offset :: "image \<Rightarrow> int \<Rightarrow> int \<Rightarrow> image" where
  "chops_offset im xoffset yoffset =
     (case im_size im of (w, h) \<Rightarrow>
        im\<lparr>im_px := (\<lambda>(x, y). im_px im (nat ((int x - xoffset) mod int w),
                                          nat ((int y - yoffset) mod int h)))\<rparr>)"

text \<open>
  \<^verbatim>\<open>ImageEnhance.Brightness(band).enhance(factor)\<close> blends a black band with the band.
  Pillow does it in C with the factor converted to a \<^verbatim>\<open>float\<close>: every value is multiplied
  by the factor in single precision, truncated and clipped. (At the factors 0 and 1
  Pillow copies the black band and the band, which is what the product gives there.)
\<close>

definition enhance_brightness :: "real \<Rightarrow> band \<Rightarrow> band" where
  "enhance_brightness factor b =
     (\<lambda>p. clip8 (py_int (sgl (sgl (dbl factor) * real (unat (b p))))))"

text \<open>
  \<^verbatim>\<open>Image.composite(image1, image2, mask)\<close> pastes \<open>image1\<close> into a copy of \<open>image2\<close>
  through the alpha channel of the mask; each channel is blended with Pillow's rounded
  division by 255.
\<close>

definition div255 :: "nat \<Rightarrow> nat" where
  "div255 a = (let tmp = a + 128 in (tmp div 256 + tmp) div 256)"

definition blend8 :: "8 word \<Rightarrow> 8 word \<Rightarrow> 8 word \<Rightarrow> 8 word" where
  "blend8 m in1 in2 = of_nat (div255 (unat in1 * (255 - unat m) + unat in2 * unat m))"

definition composite :: "image \<Rightarrow> image \<Rightarrow> image \<Rightarrow> image" where
  "composite image1 image2 mask_image =
     image2\<lparr>im_px := (\<lambda>p.
        let m = alpha (im_px mask_image p); dst = im_px image2 p; src = im_px image1 p in
        \<lparr>red = blend8 m (red dst) (red src), green = blend8 m (green dst) (green src),
         blue = blend8 m (blue dst) (blue src), alpha = blend8 m (alpha dst) (alpha src)\<rparr>)\<rparr>"

text \<open>
  What the rasteriser does is outside the repository and no property below depends on
  it: the exception of loading a font file at a size and measuring the calibration
  string (\<open>load_error\<close> above), the font metrics \<^verbatim>\<open>truetype(font_file, n).getsize(s)\<close>,
  the pixels after \<^verbatim>\<open>draw.text\<close> (which draws into the image and keeps its size), the
  pixels after \<^verbatim>\<open>filter(GaussianBlur(radius))\<close>, and the pixel of
  \<^verbatim>\<open>Image.alpha_composite\<close> from the pixel below and the pixel above. The last field is
  not Pillow's: it is the outcome of a call of \<^verbatim>\<open>add_watermark\<close> with an option of
  another type than its annotation (see \<open>call_add_watermark\<close> below).
\<close>

record pil =
  truetype_error :: "pystr \<Rightarrow> nat \<Rightarrow> error option"
  getsize :: "pystr \<Rightarrow> nat \<Rightarrow> pystr \<Rightarrow> int \<times> int"
  draw_text :: "pystr \<Rightarrow> nat \<Rightarrow> draw_call \<Rightarrow> image \<Rightarrow> nat \<times> nat \<Rightarrow> rgba"
  gaussian_blur :: "real \<Rightarrow> image \<Rightarrow> nat \<times> nat \<Rightarrow> rgba"
  alpha_over :: "rgba \<Rightarrow> rgba \<Rightarrow> rgba"
  ill_typed :: "image \<Rightarrow> pystr \<Rightarrow> pydict \<Rightarrow> (error + image) option"

definition blur_filter :: "pil \<Rightarrow> real \<Rightarrow> image \<Rightarrow> image" where
  "blur_filter env radius im = im\<lparr>im_px := gaussian_blur env radius im\<rparr>"

definition alpha_composite :: "pil \<Rightarrow> image \<Rightarrow> image \<Rightarrow> image" where
  "alpha_composite env im1 im2 = im1\<lparr>im_px := (\<lambda>p. alpha_over env (im_px im1 p) (im_px im2 p))\<rparr>"

text \<open>\<^verbatim>\<open>plot_lines(im)\<close>: the \<^verbatim>\<open>draw.text\<close> calls of the loop, made on the image in order.\<close>

definition plot_lines :: "pil \<Rightarrow> pystr \<Rightarrow> nat \<Rightarrow> draw_call list \<Rightarrow> image \<Rightarrow> image" where
  "plot_lines env font_file sz calls im =
     foldl (\<lambda>im c. im\<lparr>im_px := draw_text env font_file sz c im\<rparr>) im calls"

subsection \<open>The drop shadow: \<^verbatim>\<open>make_shadow\<close> (lines 14 to 22)\<close>

text \<open>
  \<open>shadow_base\<close> is the layer after lines 18 and 19: filled with the colour, its alpha
  replaced by the text layer's alpha times the colour's alpha. Each of \<^verbatim>\<open>v * 255\<close> and
  \<^verbatim>\<open>i * shadow_color[3]\<close> is a double product, which \<^verbatim>\<open>int\<close> truncates. Lines 20 and 21
  move and blur the layer.
\<close>

definition shadow_base :: "image \<Rightarrow> real \<times> real \<times> real \<times> real \<Rightarrow> image" where
  "shadow_base im shadow_color =
     (case shadow_color of (r, g, b, a) \<Rightarrow>
        let shadow_im = image_new (im_size im)
              (py_int (fmul r 255), py_int (fmul g 255), py_int (fmul b 255),
               py_int (fmul a 255))
        in putalpha shadow_im (point (\<lambda>i. py_int (fmul (real_of_int i) a)) (alpha_band im)))"

definition make_shadow ::
    "pil \<Rightarrow> image \<Rightarrow> real \<times> real \<Rightarrow> real \<times> real \<times> real \<times> real \<Rightarrow> real \<Rightarrow> image" where
  "make_shadow env im offset shadow_color blur_radius =
     (let shadow_im = shadow_base im shadow_color;
          shadow_im = chops_offset shadow_im (py_int (fst offset)) (py_int (snd offset));
          shadow_im = blur_filter env blur_radius shadow_im
      in shadow_im)"

text \<open>
  The call of lines 92 to 97: \<open>(margin * shadow_offset,) * 2\<close> is the pair of two equal
  offsets; the offset and the blur radius are double products.
\<close>

definition shadow_image ::
    "pil \<Rightarrow> image \<Rightarrow> int \<Rightarrow> real \<Rightarrow> real \<Rightarrow> real \<times> real \<times> real \<times> real \<Rightarrow> image" where
  "shadow_image env wm_image margin shadow_offset shadow_blur_radius shadow_color =
     make_shadow env wm_image
       (fmul (real_of_int margin) shadow_offset, fmul (real_of_int margin) shadow_offset)
       shadow_color (fmul shadow_blur_radius (real_of_int margin))"

subsection \<open>\<^verbatim>\<open>add_watermark\<close> as a whole\<close>

text \<open>
  The result is \<open>None\<close> when the sizing loop never ends, \<open>Some (Inl e)\<close> when the
  function raises (for the position string, or in the sizing loop) and \<open>Some (Inr im)\<close>
  when it returns the image \<open>im\<close>.
\<close>

definition add_watermark ::
    "pil \<Rightarrow> image \<Rightarrow> pystr \<Rightarrow> pystr \<Rightarrow> pystr \<Rightarrow> real \<Rightarrow> real \<Rightarrow> real \<Rightarrow> real \<Rightarrow> real
      \<Rightarrow> real \<times> real \<times> real \<times> real \<Rightarrow> (error + image) option" where
  "add_watermark env input_image text position font_file font_size opacity line_spacing
       shadow_offset shadow_blur_radius shadow_color =
     (case im_size input_image of (im_w, im_h) \<Rightarrow>
      case parse_position position of
        Inl e \<Rightarrow> Some (Inl e)
      | Inr (h_pos, v_pos) \<Rightarrow>
          (case auto_size (truetype_error env font_file) (getsize env font_file)
                  (im_size input_image) font_size of
             None \<Rightarrow> None
           | Some (Inl e) \<Rightarrow> Some (Inl e)
           | Some (Inr (sz, line_height)) \<Rightarrow>
               let font = getsize env font_file sz;
                   margin = line_height;
                   spacing = fmul line_spacing (real_of_int margin);
                   lines = split_on 10 text;
                   (wm_width, wm_height) = text_bbox font spacing lines;
                   wm_image = image_new (im_size input_image) (0, 0, 0, 0);
                   wm_image = plot_lines env font_file sz
                     (plot_calls font (int im_w) (int im_h) wm_height margin spacing
                        h_pos v_pos lines) wm_image;
                   shadow = shadow_image env wm_image margin shadow_offset shadow_blur_radius
                     shadow_color;
                   wm_image = alpha_composite env shadow wm_image;
                   a = enhance_brightness opacity (alpha_band wm_image);
                   wm_image = putalpha wm_image a;
                   im = composite wm_image input_image wm_image
               in Some (Inr im)))"

text \<open>The default of the last parameter: opaque black.\<close>

definition default_shadow_color :: "real \<times> real \<times> real \<times> real" where
  "default_shadow_color = (0, 0, 0, 1)"

section \<open>The files the program reads and writes\<close>

text \<open>
  Assignment to a key of a \<^verbatim>\<open>dict\<close> replaces the value of the key in place or appends
  the key, and \<^verbatim>\<open>pop\<close> removes it or raises \<^verbatim>\<open>KeyError\<close>.
\<close>

definition dict_set :: "pydict \<Rightarrow> pystr \<Rightarrow> jvalue \<Rightarrow> pydict" where
  "dict_set d k v = AList.update k v d"

definition dict_pop :: "pydict \<Rightarrow> pystr \<Rightarrow> error + jvalue \<times> pydict" where
  "dict_pop d k =
     (case map_of d k of
        None \<Rightarrow> Inl KeyError
      | Some v \<Rightarrow> Inr (v, AList.delete k d))"

text \<open>
  A file holds a JSON object (what \<^verbatim>\<open>json.dumps\<close> of a dict wrote and \<^verbatim>\<open>json.load\<close> reads
  back), some other JSON document, or data that is not JSON (a picture, a video, a
  font), named by a number. The file system is the files and the directories by
  path, with each directory's listing; the host gives \<^verbatim>\<open>sys.platform\<close> and the expansion
  of \<^verbatim>\<open>~/Library/Fonts\<close>. \<open>trace\<close> records, latest first, each call of the job runner and
  each file opened for writing.
\<close>

datatype fcontent = Json_object pydict | Json_other | Binary nat

datatype event =
    Run_job pystr jvalue pystr jvalue pydict bool
  | Open_write pystr

record world =
  files :: "pystr \<Rightarrow> fcontent option"
  dirs :: "pystr \<Rightarrow> pystr list option"
  platform :: pystr
  home_fonts :: pystr
  trace :: "event list"

text \<open>
  A call ends in \<open>None\<close> when it never returns, and otherwise in the world it left with
  \<open>None\<close> for a normal return or \<open>Some e\<close> for the exception it raised.
\<close>

type_synonym outcome = "(world \<times> error option) option"

definition isfile :: "world \<Rightarrow> pystr \<Rightarrow> bool" where
  "isfile w path \<longleftrightarrow> files w path \<noteq> None"

definition isdir :: "world \<Rightarrow> pystr \<Rightarrow> bool" where
  "isdir w path \<longleftrightarrow> dirs w path \<noteq> None"

definition write_file :: "world \<Rightarrow> pystr \<Rightarrow> fcontent \<Rightarrow> world" where
  "write_file w path c = w\<lparr>files := (files w)(path \<mapsto> c), trace := Open_write path # trace w\<rparr>"

text \<open>\<^verbatim>\<open>os.path.join(a, b)\<close> on a POSIX host.\<close>

definition path_join :: "pystr \<Rightarrow> pystr \<Rightarrow> pystr" where
  "path_join a b =
     (if b \<noteq> [] \<and> hd b = 47 then b
      else if a = [] \<or> last a = 47 then a @ b
      else a @ [47] @ b)"

section \<open>The font locator: \<^verbatim>\<open>get_font\<close> (utils.py)\<close>

text \<open>Line 16: the names between the commas, stripped, without the empty ones.\<close>

definition search_names :: "pystr \<Rightarrow> pystr list" where
  "search_names family = map strip (filter (\<lambda>n. strip n \<noteq> []) (split_on 44 family))"

definition search_exts :: "pystr list" where
  "search_exts = [str ''.otf'', str ''.ttf'', str ''.ttc'']"

text \<open>The first loop of \<^verbatim>\<open>traverse_dir\<close>: the first extension whose path is a file.\<close>

fun find_ext :: "world \<Rightarrow> pystr \<Rightarrow> pystr \<Rightarrow> pystr list \<Rightarrow> pystr option" where
  "find_ext w search_dir search_name [] = None"
| "find_ext w search_dir search_name (ext # exts) =
     (let path = path_join search_dir (search_name @ ext) in
      if isfile w path then Some path else find_ext w search_dir search_name exts)"

text \<open>
  \<^verbatim>\<open>traverse_dir\<close> calls itself on every subdirectory and nothing bounds the depth, so it
  is a partial function. \<open>Inl search_dir\<close> is a call of \<^verbatim>\<open>traverse_dir(search_dir,
  search_name)\<close>; \<open>Inr (search_dir, subdirs)\<close> is its second loop with the entries still to
  visit. \<^verbatim>\<open>os.listdir\<close> of a path that is no directory raises. The result \<open>Inr None\<close> is
  the Python \<^verbatim>\<open>None\<close> of a search that found nothing.
\<close>

partial_function (option) traverse ::
    "world \<Rightarrow> pystr \<Rightarrow> pystr + pystr \<times> pystr list \<Rightarrow> (error + pystr option) option" where
  "traverse w search_name job =
     (case job of
        Inl search_dir \<Rightarrow>
          (case find_ext w search_dir search_name search_exts of
             Some path \<Rightarrow> Some (Inr (Some path))
           | None \<Rightarrow>
               (case dirs w search_dir of
                  None \<Rightarrow> Some (Inl OSError)
                | Some subdirs \<Rightarrow> traverse w search_name (Inr (search_dir, subdirs))))
      | Inr (search_dir, subdirs) \<Rightarrow>
          (case subdirs of
             [] \<Rightarrow> Some (Inr None)
           | subdir # rest \<Rightarrow>
               (let path = path_join search_dir subdir in
                if isdir w path then
                  Option.bind (traverse w search_name (Inl path))
                    (\<lambda>r. case r of
                           Inl e \<Rightarrow> Some (Inl e)
                         | Inr (Some found) \<Rightarrow> Some (Inr (Some found))
                         | Inr None \<Rightarrow> traverse w search_name (Inr (search_dir, rest)))
                else traverse w search_name (Inr (search_dir, rest)))))"

definition traverse_dir :: "world \<Rightarrow> pystr \<Rightarrow> pystr \<Rightarrow> (error + pystr option) option" where
  "traverse_dir w search_dir search_name = traverse w search_name (Inl search_dir)"

text \<open>Lines 33 to 39: every name, in order, against every directory, in order.\<close>

fun dirs_loop :: "world \<Rightarrow> pystr \<Rightarrow> pystr list \<Rightarrow> (error + pystr option) option" where
  "dirs_loop w search_name [] = Some (Inr None)"
| "dirs_loop w search_name (search_dir # rest) =
     Option.bind (traverse_dir w search_dir search_name)
       (\<lambda>r. case r of
              Inl e \<Rightarrow> Some (Inl e)
            | Inr (Some found) \<Rightarrow> Some (Inr (Some found))
            | Inr None \<Rightarrow> dirs_loop w search_name rest)"

fun names_loop :: "world \<Rightarrow> pystr list \<Rightarrow> pystr list \<Rightarrow> (error + pystr) option" where
  "names_loop w search_dirs [] = Some (Inl IOError_font_not_found)"
| "names_loop w search_dirs (search_name # rest) =
     Option.bind (dirs_loop w search_name search_dirs)
       (\<lambda>r. case r of
              Inl e \<Rightarrow> Some (Inl e)
            | Inr (Some found) \<Rightarrow> Some (Inr found)
            | Inr None \<Rightarrow> names_loop w search_dirs rest)"

definition get_font :: "world \<Rightarrow> pystr \<Rightarrow> (error + pystr) option" where
  "get_font w family =
     (if platform w = str ''darwin'' then
        let search_dirs = [str ''/System/Library/Fonts'', home_fonts w] in
        names_loop w search_dirs (search_names family)
      else Some (Inl RuntimeError_platform))"

section \<open>The job runner: \<^verbatim>\<open>run_job\<close> (lines 111 to 150)\<close>

text \<open>
  \<^verbatim>\<open>os.path.splitext(p)[-1]\<close>: the extension starts at the last dot of the last path
  component, unless only dots stand before it. \<^verbatim>\<open>lower\<close> is modelled for the characters
  that lower-case to an ASCII letter: \<open>A\<close> to \<open>Z\<close> and the Kelvin sign.
\<close>

definition splitext_ext :: "pystr \<Rightarrow> pystr" where
  "splitext_ext p =
     (let name = rev (takeWhile (\<lambda>c. c \<noteq> 47) (rev p));
          rext = takeWhile (\<lambda>c. c \<noteq> 46) (rev name)
      in if length rext = length name then []
         else let stem = take (length name - length rext - 1) name
              in if filter (\<lambda>c. c \<noteq> 46) stem = [] then [] else 46 # rev rext)"

definition lower :: "pystr \<Rightarrow> pystr" where
  "lower s = map (\<lambda>c. if 65 \<le> c \<and> c \<le> 90 then c + 32 else if c = 8490 then 107 else c) s"

text \<open>
  The codecs are outside the repository: decoding a picture file (\<^verbatim>\<open>Image.open\<close>),
  encoding an image for a path with a quality (\<^verbatim>\<open>save\<close>), the width and height of a
  video's first video stream (\<^verbatim>\<open>ffmpeg.probe\<close>), and the overlay filter of ffmpeg, which
  is told whether it may overwrite and whether the output exists.
\<close>

record codecs =
  decode_image :: "fcontent \<Rightarrow> error + image"
  encode_image :: "image \<Rightarrow> pystr \<Rightarrow> jvalue \<Rightarrow> error + fcontent"
  probe_video :: "fcontent \<Rightarrow> error + nat \<times> nat"
  overlay_video :: "bool \<Rightarrow> bool \<Rightarrow> fcontent \<Rightarrow> image \<Rightarrow> pystr \<Rightarrow> error + fcontent"

definition open_image :: "codecs \<Rightarrow> world \<Rightarrow> pystr \<Rightarrow> error + image" where
  "open_image cd w path =
     (case files w path of
        None \<Rightarrow> Inl OSError
      | Some c \<Rightarrow> decode_image cd c)"

definition probe :: "codecs \<Rightarrow> world \<Rightarrow> pystr \<Rightarrow> error + nat \<times> nat" where
  "probe cd w path =
     (case files w path of
        None \<Rightarrow> Inl ExternalError
      | Some c \<Rightarrow> probe_video cd c)"

text \<open>
  \<^verbatim>\<open>output_image.save(output_file, quality=quality, ...)\<close> and the ffmpeg run. The output
  path and the quality are whatever the caller passed: in batch mode they come from the
  JSON file.
\<close>

definition save_image :: "codecs \<Rightarrow> world \<Rightarrow> image \<Rightarrow> jvalue \<Rightarrow> jvalue \<Rightarrow> world \<times> error option" where
  "save_image cd w im output_file quality =
     (case output_file of
        JStr path \<Rightarrow>
          (case encode_image cd im path quality of
             Inl e \<Rightarrow> (w, Some e)
           | Inr c \<Rightarrow> (write_file w path c, None))
      | _ \<Rightarrow> (w, Some TypeError))"

definition overlay ::
    "codecs \<Rightarrow> world \<Rightarrow> pystr \<Rightarrow> image \<Rightarrow> jvalue \<Rightarrow> bool \<Rightarrow> world \<times> error option" where
  "overlay cd w input_file im output_file overwrite =
     (case output_file of
        JStr path \<Rightarrow>
          (case files w input_file of
             None \<Rightarrow> (w, Some ExternalError)
           | Some video \<Rightarrow>
               (case overlay_video cd overwrite (isfile w path) video im path of
                  Inl e \<Rightarrow> (w, Some e)
                | Inr c \<Rightarrow> (write_file w path c, None)))
      | _ \<Rightarrow> (w, Some TypeError))"

text \<open>
  \<^verbatim>\<open>add_watermark(input_image, font_file=font_file, **options)\<close>. The call itself raises
  \<^verbatim>\<open>TypeError\<close> unless the keys of the dict are parameters of \<^verbatim>\<open>add_watermark\<close> other than
  the two already given and the seven without a default are there. Nothing checks the
  type of a value: the position is the first option the body uses, so a position
  string with an unknown word raises \<^verbatim>\<open>ValueError\<close> whatever the other values are. With
  a string for the text and the position, numbers for the five numbers and four
  numbers for the colour, the call is the function above (a JSON integer acting as the
  float of its value). What Python and Pillow do with a value of another type depends
  on where it is first used (a string in the place of a number is repeated by the
  multiplication and fails later, or not at all) and is not modelled: \<open>ill_typed\<close> stands
  for the outcome.
\<close>

definition known_options :: "pystr list" where
  "known_options =
     [str ''text'', str ''position'', str ''font_size'', str ''opacity'', str ''line_spacing'',
      str ''shadow_offset'', str ''shadow_blur_radius'', str ''shadow_color'']"

fun as_str :: "jvalue \<Rightarrow> pystr option" where
  "as_str (JStr s) = Some s"
| "as_str _ = None"

fun as_float :: "jvalue \<Rightarrow> real option" where
  "as_float (JInt i) = Some (real_of_int i)"
| "as_float (JFloat x) = Some x"
| "as_float _ = None"

fun as_color :: "jvalue \<Rightarrow> (real \<times> real \<times> real \<times> real) option" where
  "as_color (JList [r, g, b, a]) =
     Option.bind (as_float r) (\<lambda>r. Option.bind (as_float g) (\<lambda>g.
     Option.bind (as_float b) (\<lambda>b. Option.bind (as_float a) (\<lambda>a. Some (r, g, b, a)))))"
| "as_color _ = None"

definition call_add_watermark :: "pil \<Rightarrow> image \<Rightarrow> pystr \<Rightarrow> pydict \<Rightarrow> (error + image) option" where
  "call_add_watermark env input_image font_file options =
     (if filter (\<lambda>k. k \<notin> set known_options) (map fst options) \<noteq> [] then Some (Inl TypeError)
      else if filter (\<lambda>k. map_of options k = None)
                [str ''text'', str ''position'', str ''font_size'', str ''opacity'',
                 str ''line_spacing'', str ''shadow_offset'', str ''shadow_blur_radius''] \<noteq> []
      then Some (Inl TypeError)
      else
        (case Option.bind (map_of options (str ''position'')) as_str of
           None \<Rightarrow> ill_typed env input_image font_file options
         | Some position \<Rightarrow>
             (case parse_position position of
                Inl e \<Rightarrow> Some (Inl e)
              | Inr hv \<Rightarrow>
                  (case (Option.bind (map_of options (str ''text'')) as_str,
                         Option.bind (map_of options (str ''font_size'')) as_float,
                         Option.bind (map_of options (str ''opacity'')) as_float,
                         Option.bind (map_of options (str ''line_spacing'')) as_float,
                         Option.bind (map_of options (str ''shadow_offset'')) as_float,
                         Option.bind (map_of options (str ''shadow_blur_radius'')) as_float,
                         (case map_of options (str ''shadow_color'') of
                            None \<Rightarrow> Some default_shadow_color
                          | Some c \<Rightarrow> as_color c)) of
                     (Some text, Some font_size, Some opacity, Some line_spacing,
                      Some shadow_offset, Some shadow_blur_radius, Some shadow_color) \<Rightarrow>
                       add_watermark env input_image text position font_file font_size opacity
                         line_spacing shadow_offset shadow_blur_radius shadow_color
                   | _ \<Rightarrow> ill_typed env input_image font_file options))))"

definition image_exts :: "pystr list" where
  "image_exts = [str ''.jpg'', str ''.jpeg'', str ''.png'', str ''.bmp'']"

definition video_exts :: "pystr list" where
  "video_exts = [str ''.avi'', str ''.m4a'', str ''.mkv'', str ''.mov'', str ''.mp4'', str ''.wmv'']"

text \<open>
  The call is put on the trace first. The temporary PNG of the video branch lives only
  inside the call and is not part of the world.
\<close>

definition run_job ::
    "codecs \<Rightarrow> pil \<Rightarrow> world \<Rightarrow> pystr \<Rightarrow> jvalue \<Rightarrow> pystr \<Rightarrow> jvalue \<Rightarrow> pydict \<Rightarrow> bool \<Rightarrow> outcome" where
  "run_job cd env w0 input_file output_file font_file quality options overwrite =
     (let w = w0\<lparr>trace := Run_job input_file output_file font_file quality options overwrite
                    # trace w0\<rparr>;
          input_ext = lower (splitext_ext input_file)
      in if input_ext \<in> set image_exts then
           (case open_image cd w input_file of
              Inl e \<Rightarrow> Some (w, Some e)
            | Inr input_image \<Rightarrow>
                Option.bind (call_add_watermark env input_image font_file options)
                  (\<lambda>r. case r of
                         Inl e \<Rightarrow> Some (w, Some e)
                       | Inr output_image \<Rightarrow>
                           Some (save_image cd w output_image output_file quality)))
         else if input_ext \<in> set video_exts then
           (case probe cd w input_file of
              Inl e \<Rightarrow> Some (w, Some e)
            | Inr (width, height) \<Rightarrow>
                (let input_image = image_new (width, height) (255, 255, 255, 0) in
                 Option.bind (call_add_watermark env input_image font_file options)
                   (\<lambda>r. case r of
                          Inl e \<Rightarrow> Some (w, Some e)
                        | Inr output_image \<Rightarrow>
                            Some (overlay cd w input_file output_image output_file overwrite))))
         else Some (w, Some IOError_unsupported_ext))"

section \<open>The driver: \<^verbatim>\<open>main\<close> (lines 166 to 223)\<close>

text \<open>\<^verbatim>\<open>'\n'.join(text)\<close>.\<close>

fun join_lines :: "pystr list \<Rightarrow> pystr" where
  "join_lines [] = []"
| "join_lines [t] = t"
| "join_lines (t # ts) = t @ [10] @ join_lines ts"

text \<open>The dict of lines 206 to 214.\<close>

definition style_options ::
    "pystr \<Rightarrow> pystr \<Rightarrow> real \<Rightarrow> real \<Rightarrow> real \<Rightarrow> real \<Rightarrow> real \<Rightarrow> pydict" where
  "style_options text position font_size opacity line_spacing shadow_offset shadow_blur_radius =
     [(str ''text'', JStr text),
      (str ''position'', JStr position),
      (str ''font_size'', JFloat font_size),
      (str ''opacity'', JFloat opacity),
      (str ''line_spacing'', JFloat line_spacing),
      (str ''shadow_offset'', JFloat shadow_offset),
      (str ''shadow_blur_radius'', JFloat shadow_blur_radius)]"

text \<open>
  Single mode, lines 195 to 223. \<open>text\<close> is the tuple of the \<^verbatim>\<open>--text\<close> options; the input
  and output file are \<open>None\<close> when the option was not given.
\<close>

definition main_single ::
    "codecs \<Rightarrow> pil \<Rightarrow> world \<Rightarrow> pystr list \<Rightarrow> pystr \<Rightarrow> pystr \<Rightarrow> real \<Rightarrow> real \<Rightarrow> real \<Rightarrow> real \<Rightarrow> real
      \<Rightarrow> pystr option \<Rightarrow> pystr option \<Rightarrow> int \<Rightarrow> outcome" where
  "main_single cd env w text position font_family font_size opacity line_spacing shadow_offset
       shadow_blur_radius input_file output_file quality =
     (case (input_file, output_file) of
        (Some input_file, Some output_file) \<Rightarrow>
          if text = [] then Some (w, Some ValueError_mode)
          else
            (let text = join_lines text in
             if input_file = output_file then Some (w, Some IOError_same_file)
             else
               Option.bind (get_font w font_family)
                 (\<lambda>r. case r of
                        Inl e \<Rightarrow> Some (w, Some e)
                      | Inr font_file \<Rightarrow>
                          (let options = style_options text position font_size opacity
                                 line_spacing shadow_offset shadow_blur_radius
                           in Option.bind
                                (run_job cd env w input_file (JStr output_file) font_file
                                   (JInt quality) options False)
                                (\<lambda>(w, r). case r of
                                   Some e \<Rightarrow> Some (w, Some e)
                                 | None \<Rightarrow>
                                     (let options = dict_set options (str ''font_family'')
                                            (JStr font_family);
                                          options = dict_set options (str ''output_file'')
                                            (JStr output_file);
                                          options = dict_set options (str ''quality'')
                                            (JInt quality)
                                      in Some (write_file w (input_file @ str ''.json'')
                                                 (Json_object options), None))))))
      | _ \<Rightarrow> Some (w, Some ValueError_mode))"

text \<open>
  \<^verbatim>\<open>get_font\<close> of a value popped from the JSON file: a value that is not a string fails
  at \<^verbatim>\<open>family.split\<close>, after the platform test.
\<close>

definition get_font_value :: "world \<Rightarrow> jvalue \<Rightarrow> (error + pystr) option" where
  "get_font_value w v =
     (case v of
        JStr family \<Rightarrow> get_font w family
      | _ \<Rightarrow> if platform w = str ''darwin'' then Some (Inl TypeError)
             else Some (Inl RuntimeError_platform))"

text \<open>
  The body of the batch loop, lines 180 to 192, for one input file: a file without a
  sidecar is skipped.
\<close>

definition batch_job :: "codecs \<Rightarrow> pil \<Rightarrow> world \<Rightarrow> pystr \<Rightarrow> outcome" where
  "batch_job cd env w input_file =
     (let meta_file = input_file @ str ''.json'' in
      case files w meta_file of
        None \<Rightarrow> Some (w, None)
      | Some (Binary n) \<Rightarrow> Some (w, Some JSONDecodeError)
      | Some Json_other \<Rightarrow> Some (w, Some TypeError)
      | Some (Json_object options) \<Rightarrow>
          (case dict_pop options (str ''font_family'') of
             Inl e \<Rightarrow> Some (w, Some e)
           | Inr (font_family, options) \<Rightarrow>
               Option.bind (get_font_value w font_family)
                 (\<lambda>r. case r of
                        Inl e \<Rightarrow> Some (w, Some e)
                      | Inr font_file \<Rightarrow>
                          (case dict_pop options (str ''output_file'') of
                             Inl e \<Rightarrow> Some (w, Some e)
                           | Inr (output_file, options) \<Rightarrow>
                               (case dict_pop options (str ''quality'') of
                                  Inl e \<Rightarrow> Some (w, Some e)
                                | Inr (quality, options) \<Rightarrow>
                                    if JStr input_file = output_file
                                    then Some (w, Some IOError_same_file)
                                    else run_job cd env w input_file output_file font_file
                                           quality options True)))))"

fun batch_loop :: "codecs \<Rightarrow> pil \<Rightarrow> world \<Rightarrow> pystr list \<Rightarrow> outcome" where
  "batch_loop cd env w [] = Some (w, None)"
| "batch_loop cd env w (input_file # rest) =
     Option.bind (batch_job cd env w input_file)
       (\<lambda>(w, r). case r of
                  Some e \<Rightarrow> Some (w, Some e)
                | None \<Rightarrow> batch_loop cd env w rest)"

text \<open>\<^verbatim>\<open>main\<close>: batch mode when there are trailing file arguments, single mode otherwise.\<close>

definition main ::
    "codecs \<Rightarrow> pil \<Rightarrow> world \<Rightarrow> pystr list \<Rightarrow> pystr \<Rightarrow> pystr \<Rightarrow> real \<Rightarrow> real \<Rightarrow> real \<Rightarrow> real \<Rightarrow> real
      \<Rightarrow> pystr option \<Rightarrow> pystr option \<Rightarrow> int \<Rightarrow> pystr list \<Rightarrow> outcome" where
  "main cd env w text position font_family font_size opacity line_spacing shadow_offset
       shadow_blur_radius input_file output_file quality batch_files =
     (if batch_files \<noteq> [] then
        (case (if batch_files = [str ''.''] then
                 (case dirs w (str ''.'') of
                    None \<Rightarrow> Inl OSError
                  | Some names \<Rightarrow> Inr names)
               else Inr batch_files) of
           Inl e \<Rightarrow> Some (w, Some e)
         | Inr batch_files \<Rightarrow>
             if text \<noteq> [] \<or> input_file \<noteq> None \<or> output_file \<noteq> None
             then Some (w, Some ValueError_mode)
             else batch_loop cd env w batch_files)
      else main_single cd env w text position font_family font_size opacity line_spacing
             shadow_offset shadow_blur_radius input_file output_file quality)"

text \<open>
  What the properties below say of a trace: a call of the job runner whose output path
  is not its input path. Opening a file says nothing of a job.
\<close>

fun job_paths_differ :: "event \<Rightarrow> bool" where
  "job_paths_differ (Run_job input_file output_file font_file quality options overwrite) \<longleftrightarrow>
     output_file \<noteq> JStr input_file"
| "job_paths_differ (Open_write path) \<longleftrightarrow> True"

section \<open>Concrete inputs\<close>

text \<open>
  A rasteriser to run the definitions on: a font loads at every size below 65536 and
  raises \<^verbatim>\<open>OSError\<close> from there on, a line of \<open>k\<close> characters at size \<open>n\<close> measures
  \<open>n * k\<close> by \<open>n\<close> pixels and the empty line \<open>0\<close> by \<open>0\<close>, drawing a line whitens the
  column of its \<open>x\<close>, the blur of radius zero and any other leaves the pixels alone,
  compositing keeps the pixel above unless it is fully transparent, and an option of
  another type is a \<^verbatim>\<open>TypeError\<close>.
\<close>

definition example_pil :: pil where
  "example_pil =
     \<lparr>truetype_error = (\<lambda>font_file n. if 65536 \<le> n then Some OSError else None),
      getsize = (\<lambda>font_file n s. if s = [] then (0, 0) else (int n * int (length s), int n)),
      draw_text = (\<lambda>font_file n c im p.
         if int (fst p) = dc_x c then \<lparr>red = 255, green = 255, blue = 255, alpha = 255\<rparr>
         else im_px im p),
      gaussian_blur = (\<lambda>radius im. im_px im),
      alpha_over = (\<lambda>below above. if alpha above = 0 then below else above),
      ill_typed = (\<lambda>input_image font_file options. Some (Inl TypeError))\<rparr>"

text \<open>A text layer of four by one pixels whose only opaque pixel is the first.\<close>

definition dot_layer :: image where
  "dot_layer =
     \<lparr>im_size = (4, 1),
      im_px = (\<lambda>p. if p = (0, 0) then \<lparr>red = 255, green = 255, blue = 255, alpha = 255\<rparr>
                    else \<lparr>red = 0, green = 0, blue = 0, alpha = 0\<rparr>)\<rparr>"

text \<open>A photo of 100 by 60 pixels in one colour.\<close>

definition example_photo :: image where
  "example_photo = image_new (100, 60) (10, 20, 30, 255)"

text \<open>
  Codecs that decode every picture to the photo, probe every video as 1920 by 1080,
  and refuse to overlay onto an existing file unless told to overwrite.
\<close>

definition example_codecs :: codecs where
  "example_codecs =
     \<lparr>decode_image = (\<lambda>c. Inr example_photo),
      encode_image = (\<lambda>im path quality. Inr (Binary 2)),
      probe_video = (\<lambda>c. Inr (1920, 1080)),
      overlay_video = (\<lambda>overwrite present video im path.
         if present \<and> \<not> overwrite then Inl ExternalError else Inr (Binary 3))\<rparr>"

text \<open>
  A macOS host with one font, \<^verbatim>\<open>F.ttf\<close>, the picture \<^verbatim>\<open>a.jpg\<close>, and the picture \<^verbatim>\<open>c.jpg\<close>
  whose sidecar names \<^verbatim>\<open>c.jpg\<close> itself as the output file.
\<close>

definition example_world :: world where
  "example_world =
     \<lparr>files =
        [str ''a.jpg'' \<mapsto> Binary 1,
         str ''c.jpg'' \<mapsto> Binary 1,
         str ''c.jpg.json'' \<mapsto>
           Json_object [(str ''font_family'', JStr (str ''F'')),
                        (str ''output_file'', JStr (str ''c.jpg'')),
                        (str ''quality'', JInt 95)],
         str ''/System/Library/Fonts/F.ttf'' \<mapsto> Binary 0],
      dirs =
        [str ''/System/Library/Fonts'' \<mapsto> [str ''F.ttf''],
         str ''/h/Library/Fonts'' \<mapsto> []],
      platform = str ''darwin'',
      home_fonts = str ''/h/Library/Fonts'',
      trace = []\<rparr>"

section \<open>Properties of the rounding\<close>

lemma round_even_bounds: "\<lfloor>r\<rfloor> \<le> round_even r \<and> round_even r \<le> \<lfloor>r\<rfloor> + 1"
  by (simp add: round_even_def Let_def)

lemma round_even_of_int [simp]: "round_even (of_int n) = n"
  by (simp add: round_even_def)

lemma round_even_mono:
  assumes "r \<le> s"
  shows "round_even r \<le> round_even s"
proof (cases "\<lfloor>r\<rfloor> = \<lfloor>s\<rfloor>")
  case True
  with assms show ?thesis
    by (auto simp: round_even_def Let_def)
next
  case False
  with assms have "\<lfloor>r\<rfloor> + 1 \<le> \<lfloor>s\<rfloor>"
    using floor_mono [of r s] by linarith
  with round_even_bounds [of r] round_even_bounds [of s] show ?thesis
    by linarith
qed

lemma round_even_le: "r \<le> of_int n \<Longrightarrow> round_even r \<le> n"
  using round_even_mono [of r "of_int n"] by simp

lemma round_even_ge: "of_int n \<le> r \<Longrightarrow> n \<le> round_even r"
  using round_even_mono [of "of_int n" r] by simp


lemma floor_log2_eq:
  assumes "0 < (x::real)" "2 powr of_int e \<le> x" "x < 2 powr of_int (e + 1)"
  shows "\<lfloor>log 2 x\<rfloor> = e"
  using assms by (subst floor_log_eq_powr_iff) simp_all

lemma floor_log2_bounds:
  assumes "0 < (x::real)"
  shows "2 powr of_int \<lfloor>log 2 x\<rfloor> \<le> x" "x < 2 powr of_int (\<lfloor>log 2 x\<rfloor> + 1)"
  using floor_log_eq_powr_iff [of x 2 "\<lfloor>log 2 x\<rfloor>"] assms by simp_all

lemma fround_pos:
  assumes "0 < (x::real)" "2 powr of_int e \<le> x" "x < 2 powr of_int (e + 1)"
  shows "fround p x
    = of_int (round_even (x / 2 powr of_int (e + 1 - int p))) * 2 powr of_int (e + 1 - int p)"
  using assms floor_log2_eq [OF assms] by (simp add: fround_def Let_def)

lemma fround_neg: "fround p (- x) = - fround p x"
  by (simp add: fround_def Let_def sgn_minus)

lemma fround_0 [simp]: "fround p 0 = 0"
  by (simp add: fround_def)

text \<open>The rounded magnitude of a positive number stays in its binade, ends included.\<close>

lemma scaled_bounds:
  assumes "0 < (x::real)" "2 powr of_int e \<le> x" "x < 2 powr of_int (e + 1)" "0 < p"
  shows "2 ^ (p - 1) \<le> x / 2 powr of_int (e + 1 - int p)"
    and "x / 2 powr of_int (e + 1 - int p) < 2 ^ p"
proof -
  have "(2::real) powr of_int (int p - 1 - e) = 2 powr (- of_int (e + 1 - int p))"
    by (simp add: algebra_simps)
  also have "\<dots> = inverse (2 powr of_int (e + 1 - int p))"
    by (rule powr_minus)
  finally have u: "x / 2 powr of_int (e + 1 - int p) = x * 2 powr of_int (int p - 1 - e)"
    by (simp add: divide_inverse)
  have "(2::real) powr of_int e * 2 powr of_int (int p - 1 - e) = 2 powr of_int (int p - 1)"
    by (simp add: powr_add [symmetric] algebra_simps)
  also have "\<dots> = 2 powr real (p - 1)"
    using \<open>0 < p\<close> by (simp add: of_nat_diff)
  also have "\<dots> = 2 ^ (p - 1)"
    by (simp add: powr_realpow)
  finally have lo: "(2::real) powr of_int e * 2 powr of_int (int p - 1 - e) = 2 ^ (p - 1)" .
  have "(2::real) powr of_int (e + 1) * 2 powr of_int (int p - 1 - e) = 2 powr real p"
    by (simp add: powr_add [symmetric] algebra_simps)
  also have "\<dots> = 2 ^ p"
    by (simp add: powr_realpow)
  finally have hi: "(2::real) powr of_int (e + 1) * 2 powr of_int (int p - 1 - e) = 2 ^ p" .
  have pos: "0 < (2::real) powr of_int (int p - 1 - e)" by simp
  from assms(2) pos have "2 powr of_int e * 2 powr of_int (int p - 1 - e)
      \<le> x * 2 powr of_int (int p - 1 - e)"
    by (simp only: mult_le_cancel_right_pos)
  then show "2 ^ (p - 1) \<le> x / 2 powr of_int (e + 1 - int p)"
    by (simp only: lo u)
  from assms(3) pos have "x * 2 powr of_int (int p - 1 - e)
      < 2 powr of_int (e + 1) * 2 powr of_int (int p - 1 - e)"
    by (simp only: mult_less_cancel_right_pos)
  then show "x / 2 powr of_int (e + 1 - int p) < 2 ^ p"
    by (simp only: hi u)
qed

lemma rounded_bounds:
  assumes "0 < (x::real)" "2 powr of_int e \<le> x" "x < 2 powr of_int (e + 1)" "0 < p"
  shows "2 ^ (p - 1) \<le> round_even (x / 2 powr of_int (e + 1 - int p))"
    and "round_even (x / 2 powr of_int (e + 1 - int p)) \<le> 2 ^ p"
proof -
  note b = scaled_bounds [OF assms]
  from b(1) have "of_int (2 ^ (p - 1)) \<le> x / 2 powr of_int (e + 1 - int p)" by simp
  then show "2 ^ (p - 1) \<le> round_even (x / 2 powr of_int (e + 1 - int p))"
    by (rule round_even_ge)
  from b(2) have "x / 2 powr of_int (e + 1 - int p) \<le> of_int (2 ^ p)" by simp
  then show "round_even (x / 2 powr of_int (e + 1 - int p)) \<le> 2 ^ p"
    by (rule round_even_le)
qed

lemma fround_pos_bounds:
  assumes "0 < (x::real)" "2 powr of_int e \<le> x" "x < 2 powr of_int (e + 1)" "0 < p"
  shows "2 powr of_int e \<le> fround p x" and "fround p x \<le> 2 powr of_int (e + 1)"
proof -
  let ?u = "(2::real) powr of_int (e + 1 - int p)"
  let ?k = "round_even (x / ?u)"
  note r = rounded_bounds [OF assms]
  have eq: "fround p x = of_int ?k * ?u" by (rule fround_pos [OF assms(1-3)])
  have lo: "2 ^ (p - 1) * ?u = 2 powr of_int e"
  proof -
    have "(2::real) ^ (p - 1) = 2 powr real (p - 1)" by (simp add: powr_realpow)
    also have "\<dots> = 2 powr of_int (int p - 1)" using \<open>0 < p\<close> by (simp add: of_nat_diff)
    finally show ?thesis by (simp add: powr_add [symmetric] algebra_simps)
  qed
  have hi: "2 ^ p * ?u = 2 powr of_int (e + 1)"
  proof -
    have "(2::real) ^ p = 2 powr real p" by (simp add: powr_realpow)
    then show ?thesis by (simp add: powr_add [symmetric] algebra_simps)
  qed
  from r(1) have "(2::real) ^ (p - 1) \<le> of_int ?k"
    by (metis of_int_le_iff of_int_numeral of_int_power)
  then have "2 ^ (p - 1) * ?u \<le> of_int ?k * ?u"
    by (simp only: mult_le_cancel_right_pos powr_gt_zero)
  then show "2 powr of_int e \<le> fround p x" by (simp only: lo eq)
  from r(2) have "of_int ?k \<le> (2::real) ^ p"
    by (metis of_int_le_iff of_int_numeral of_int_power)
  then have "of_int ?k * ?u \<le> 2 ^ p * ?u"
    by (simp only: mult_le_cancel_right_pos powr_gt_zero)
  then show "fround p x \<le> 2 powr of_int (e + 1)" by (simp only: hi eq)
qed


lemma fround_pos_gt0:
  assumes "0 < (x::real)" "0 < p"
  shows "0 < fround p x"
proof -
  have "(0::real) < 2 powr of_int \<lfloor>log 2 x\<rfloor>" by simp
  also have "\<dots> \<le> fround p x"
    by (rule fround_pos_bounds(1) [OF assms(1) floor_log2_bounds [OF assms(1)] assms(2)])
  finally show ?thesis .
qed

lemma fround_mono_pos:
  assumes "0 < (x::real)" "x \<le> y" "0 < p"
  shows "fround p x \<le> fround p y"
proof -
  let ?e = "\<lfloor>log 2 x\<rfloor>" and ?f = "\<lfloor>log 2 y\<rfloor>"
  have y: "0 < y" using assms by simp
  note bx = floor_log2_bounds [OF assms(1)] and bnd = floor_log2_bounds [OF y]
  have "log 2 x \<le> log 2 y" using assms by simp
  then have le: "?e \<le> ?f" by (rule floor_mono)
  show ?thesis
  proof (cases "?e = ?f")
    case True
    let ?u = "(2::real) powr of_int (?e + 1 - int p)"
    have "x / ?u \<le> y / ?u" using assms(2) by (simp add: divide_right_mono)
    then have "round_even (x / ?u) \<le> round_even (y / ?u)" by (rule round_even_mono)
    then have "of_int (round_even (x / ?u)) * ?u \<le> of_int (round_even (y / ?u)) * ?u"
      by (simp only: mult_le_cancel_right_pos powr_gt_zero of_int_le_iff)
    moreover have "fround p x = of_int (round_even (x / ?u)) * ?u"
      by (rule fround_pos [OF assms(1) bx])
    moreover have "fround p y = of_int (round_even (y / ?u)) * ?u"
      using fround_pos [OF y bnd] by (simp only: True)
    ultimately show ?thesis by simp
  next
    case False
    with le have "?e + 1 \<le> ?f" by simp
    then have "(2::real) powr of_int (?e + 1) \<le> 2 powr of_int ?f"
      by simp
    moreover have "fround p x \<le> 2 powr of_int (?e + 1)"
      by (rule fround_pos_bounds(2) [OF assms(1) bx assms(3)])
    moreover have "2 powr of_int ?f \<le> fround p y"
      by (rule fround_pos_bounds(1) [OF y bnd assms(3)])
    ultimately show ?thesis by linarith
  qed
qed

lemma fround_mono:
  assumes "x \<le> y" "0 < p"
  shows "fround p x \<le> fround p y"
proof -
  consider "0 < x" | "x = 0" "y = 0" | "x = 0" "0 < y" | "x < 0" "0 < y" | "x < 0" "y = 0"
    | "x < 0" "y < 0"
    using assms(1) by linarith
  then show ?thesis
  proof cases
    case 1
    then show ?thesis using assms by (rule fround_mono_pos)
  next
    case 2
    then show ?thesis by simp
  next
    case 3
    then show ?thesis using fround_pos_gt0 [of y p] assms(2) by simp
  next
    case 4
    have "0 < fround p (- x)" using 4 assms(2) by (intro fround_pos_gt0) simp_all
    then have "fround p x < 0" using fround_neg [of p x] by simp
    moreover have "0 < fround p y" using 4 assms(2) by (intro fround_pos_gt0)
    ultimately show ?thesis by simp
  next
    case 5
    have "0 < fround p (- x)" using 5 assms(2) by (intro fround_pos_gt0) simp_all
    then have "fround p x < 0" using fround_neg [of p x] by simp
    then show ?thesis using 5 by simp
  next
    case 6
    have "fround p (- y) \<le> fround p (- x)"
      using 6 assms by (intro fround_mono_pos) simp_all
    then show ?thesis using fround_neg [of p x] fround_neg [of p y] by simp
  qed
qed

lemma fround_nonneg: "0 \<le> x \<Longrightarrow> 0 < p \<Longrightarrow> 0 \<le> fround p x"
  using fround_mono [of 0 x p] by simp

lemma fround_nonpos: "x \<le> 0 \<Longrightarrow> 0 < p \<Longrightarrow> fround p x \<le> 0"
  using fround_mono [of x 0 p] by simp

text \<open>A number with a significand of at most \<open>p\<close> bits is its own rounding.\<close>

lemma fround_exact_pos:
  assumes "0 < k" "k < 2 ^ p" "0 < p"
  shows "fround p (of_int k * 2 powr of_int q) = of_int k * 2 powr of_int q"
proof -
  define x where "x = real_of_int k * 2 powr of_int q"
  define e where "e = \<lfloor>log 2 x\<rfloor>"
  define u :: real where "u = 2 powr of_int (e + 1 - int p)"
  define n where "n = nat (q - (e + 1 - int p))"
  have x: "0 < x" using assms(1) by (simp add: x_def)
  have b: "2 powr of_int e \<le> x" "x < 2 powr of_int (e + 1)"
    using floor_log2_bounds [OF x] by (simp_all only: e_def)
  have "real_of_int k < 2 ^ p"
    using assms(2) by (metis of_int_less_iff of_int_numeral of_int_power)
  then have "x < 2 ^ p * 2 powr of_int q"
    unfolding x_def by (simp only: mult_less_cancel_right_pos powr_gt_zero)
  also have "(2::real) ^ p * 2 powr of_int q = 2 powr of_int (int p + q)"
    by (simp add: powr_add powr_realpow)
  finally have "(2::real) powr of_int e < 2 powr of_int (int p + q)"
    using b(1) by linarith
  then have "e < int p + q"
    by simp
  then have n: "0 \<le> q - (e + 1 - int p)" by simp
  have "(2::real) powr of_int q = 2 powr (of_int (q - (e + 1 - int p)) + of_int (e + 1 - int p))"
    by (simp add: algebra_simps)
  also have "\<dots> = 2 powr of_int (q - (e + 1 - int p)) * u"
    unfolding u_def by (rule powr_add)
  also have "(2::real) powr of_int (q - (e + 1 - int p)) = 2 powr real n"
    using n by (simp add: n_def)
  also have "\<dots> = 2 ^ n"
    by (simp add: powr_realpow)
  finally have q: "(2::real) powr of_int q = 2 ^ n * u" .
  have u: "0 < u" by (simp add: u_def)
  have "x / u = real_of_int k * 2 ^ n"
    using u by (simp add: x_def q)
  also have "\<dots> = of_int (k * 2 ^ n)"
    by simp
  finally have "round_even (x / u) = k * 2 ^ n"
    by (simp only: round_even_of_int)
  then have "fround p x = of_int (k * 2 ^ n) * u"
    using fround_pos [OF x b, of p] by (simp only: u_def)
  also have "\<dots> = real_of_int k * (2 ^ n * u)"
    by simp
  finally show ?thesis by (simp only: q x_def)
qed

lemma fround_exact_top:
  assumes "0 < p"
  shows "fround p (2 ^ p * 2 powr of_int q) = 2 ^ p * 2 powr of_int q"
proof -
  have "(2::real) ^ p * 2 powr of_int q = 2 powr of_int (int p + q)"
    by (simp add: powr_add powr_realpow)
  also have "\<dots> = 2 powr (of_int 1 + of_int (int p + q - 1))"
    by simp
  also have "\<dots> = 2 powr of_int 1 * 2 powr of_int (int p + q - 1)"
    by (rule powr_add)
  finally have eq: "(2::real) ^ p * 2 powr of_int q = of_int 1 * 2 powr of_int (int p + q)"
    by (simp add: powr_add powr_realpow)
  have "(1::int) < 2 ^ p" using assms by (simp add: one_less_power)
  then have "fround p (of_int 1 * 2 powr of_int (int p + q)) = of_int 1 * 2 powr of_int (int p + q)"
    using assms by (intro fround_exact_pos) simp_all
  then show ?thesis by (simp only: eq)
qed

lemma fround_idem_pos:
  assumes "0 < (x::real)" "0 < p"
  shows "fround p (fround p x) = fround p x"
proof -
  let ?e = "\<lfloor>log 2 x\<rfloor>"
  let ?u = "(2::real) powr of_int (?e + 1 - int p)"
  let ?k = "round_even (x / ?u)"
  note b = floor_log2_bounds [OF assms(1)]
  note r = rounded_bounds [OF assms(1) b assms(2)]
  have eq: "fround p x = of_int ?k * ?u" by (rule fround_pos [OF assms(1) b])
  have "(0::int) < 2 ^ (p - 1)" by simp
  with r(1) have pos: "0 < ?k" by linarith
  show ?thesis
  proof (cases "?k < 2 ^ p")
    case True
    from pos True assms(2) have "fround p (of_int ?k * ?u) = of_int ?k * ?u"
      by (rule fround_exact_pos)
    then show ?thesis by (simp only: eq)
  next
    case False
    with r(2) have "?k = 2 ^ p" by simp
    then have "real_of_int ?k = 2 ^ p" by (metis of_int_numeral of_int_power)
    then have top: "fround p x = 2 ^ p * ?u" by (simp only: eq)
    show ?thesis unfolding top using assms(2) by (rule fround_exact_top)
  qed
qed

lemma fround_idem:
  assumes "0 < p"
  shows "fround p (fround p x) = fround p x"
proof -
  consider "0 < x" | "x = 0" | "x < 0" by linarith
  then show ?thesis
  proof cases
    case 1
    then show ?thesis using assms by (rule fround_idem_pos)
  next
    case 2
    then show ?thesis by simp
  next
    case 3
    then have "fround p (fround p (- x)) = fround p (- x)"
      using assms by (intro fround_idem_pos) simp_all
    then show ?thesis by (simp add: fround_neg)
  qed
qed

lemma fround_of_int:
  assumes "\<bar>n\<bar> \<le> 2 ^ p" "0 < p"
  shows "fround p (of_int n) = of_int n"
proof -
  have pos: "fround p (of_int m) = of_int m" if "0 < m" "m \<le> 2 ^ p" for m :: int
  proof (cases "m < 2 ^ p")
    case True
    with that assms(2) have "fround p (of_int m * 2 powr of_int 0) = of_int m * 2 powr of_int 0"
      by (intro fround_exact_pos)
    then show ?thesis by simp
  next
    case False
    with that have "m = 2 ^ p" by simp
    then have m: "real_of_int m = 2 ^ p" by (metis of_int_numeral of_int_power)
    from fround_exact_top [OF assms(2), of 0] show ?thesis by (simp add: m)
  qed
  consider "0 < n" | "n = 0" | "n < 0" by linarith
  then show ?thesis
  proof cases
    case 1
    then show ?thesis using assms(1) by (intro pos) simp_all
  next
    case 2
    then show ?thesis by simp
  next
    case 3
    then have "fround p (of_int (- n)) = of_int (- n)" using assms(1) by (intro pos) simp_all
    then show ?thesis by (simp add: fround_neg)
  qed
qed

text \<open>Evaluation of a rounding once the binade is known.\<close>

lemma fround_eval:
  assumes "0 < p" "2 ^ (p - 1) \<le> x / 2 powr of_int q" "x / 2 powr of_int q < 2 ^ p"
  shows "fround p x = of_int (round_even (x / 2 powr of_int q)) * 2 powr of_int q"
proof -
  let ?u = "(2::real) powr of_int q"
  let ?e = "q + int p - 1"
  have u: "0 < ?u" by simp
  have lo: "(2::real) ^ (p - 1) * ?u = 2 powr of_int ?e"
  proof -
    have "(2::real) ^ (p - 1) = 2 powr real (p - 1)" by (simp add: powr_realpow)
    also have "\<dots> = 2 powr of_int (int p - 1)" using \<open>0 < p\<close> by (simp add: of_nat_diff)
    finally show ?thesis by (simp add: powr_add [symmetric] algebra_simps)
  qed
  have hi: "(2::real) ^ p * ?u = 2 powr of_int (?e + 1)"
  proof -
    have "(2::real) ^ p = 2 powr real p" by (simp add: powr_realpow)
    then show ?thesis by (simp add: powr_add [symmetric] algebra_simps)
  qed
  from assms(2) u have "2 ^ (p - 1) * ?u \<le> x" by (simp add: pos_le_divide_eq)
  then have 1: "2 powr of_int ?e \<le> x" by (simp only: lo)
  from assms(3) u have "x < 2 ^ p * ?u" by (simp add: pos_divide_less_eq)
  then have 2: "x < 2 powr of_int (?e + 1)" by (simp only: hi)
  have "(0::real) < 2 powr of_int ?e" by simp
  with 1 have 0: "0 < x" by linarith
  have "?e + 1 - int p = q" by simp
  with fround_pos [OF 0 1 2, of p] show ?thesis by simp
qed

lemma fround_eval_neg_exp:
  assumes "0 < p" "2 ^ (p - 1) \<le> x * 2 ^ n" "x * 2 ^ n < 2 ^ p"
  shows "fround p x = of_int (round_even (x * 2 ^ n)) / 2 ^ n"
proof -
  have u: "(2::real) powr of_int (- int n) = inverse (2 ^ n)"
    by (simp add: powr_minus powr_realpow)
  have "fround p x = of_int (round_even (x / 2 powr of_int (- int n))) * 2 powr of_int (- int n)"
    using assms by (intro fround_eval) (simp_all only: u divide_inverse inverse_inverse_eq)
  then show ?thesis by (simp only: u divide_inverse inverse_inverse_eq)
qed


subsection \<open>Doubles\<close>

lemma dbl_0 [simp]: "dbl 0 = 0"
  by (simp add: dbl_def)

lemma sgl_0 [simp]: "sgl 0 = 0"
  by (simp add: sgl_def)

lemma dbl_mono: "x \<le> y \<Longrightarrow> dbl x \<le> dbl y"
  unfolding dbl_def by (rule fround_mono) simp_all

lemma dbl_nonneg: "0 \<le> x \<Longrightarrow> 0 \<le> dbl x"
  unfolding dbl_def by (rule fround_nonneg) simp_all

lemma dbl_nonpos: "x \<le> 0 \<Longrightarrow> dbl x \<le> 0"
  unfolding dbl_def by (rule fround_nonpos) simp_all

text \<open>A double is its own conversion.\<close>

lemma dbl_idem [simp]: "dbl (dbl x) = dbl x"
  unfolding dbl_def by (rule fround_idem) simp

text \<open>An integer of at most 53 bits is a double.\<close>

lemma dbl_of_int: "\<bar>n\<bar> \<le> 2 ^ 53 \<Longrightarrow> dbl (of_int n) = of_int n"
  unfolding dbl_def by (rule fround_of_int) simp_all

lemma dbl_of_nat: "n \<le> 2 ^ 53 \<Longrightarrow> dbl (of_nat n) = of_nat n"
proof -
  assume "n \<le> 2 ^ 53"
  then have "int n \<le> 2 ^ 53" by (metis of_nat_le_iff of_nat_numeral of_nat_power)
  then have "dbl (of_int (int n)) = of_int (int n)" by (intro dbl_of_int) simp
  then show ?thesis by simp
qed

lemma dbl_eval:
  "2 ^ 52 \<le> x * 2 ^ n \<Longrightarrow> x * 2 ^ n < 2 ^ 53 \<Longrightarrow>
   dbl x = of_int (round_even (x * 2 ^ n)) / 2 ^ n"
  unfolding dbl_def by (rule fround_eval_neg_exp) simp_all

lemma sgl_eval:
  "2 ^ 23 \<le> x * 2 ^ n \<Longrightarrow> x * 2 ^ n < 2 ^ 24 \<Longrightarrow>
   sgl x = of_int (round_even (x * 2 ^ n)) / 2 ^ n"
  unfolding sgl_def by (rule fround_eval_neg_exp) simp_all

lemma fmul_mono_right: "0 \<le> x \<Longrightarrow> y \<le> z \<Longrightarrow> fmul x y \<le> fmul x z"
  unfolding fmul_def by (intro dbl_mono mult_left_mono dbl_nonneg)

lemma fmul_nonneg: "0 \<le> x \<Longrightarrow> 0 \<le> y \<Longrightarrow> 0 \<le> fmul x y"
  unfolding fmul_def by (intro dbl_nonneg mult_nonneg_nonneg)

lemma fmul_0_left [simp]: "fmul 0 y = 0"
  by (simp add: fmul_def)

subsection \<open>Thresholds of the examples\<close>

lemma threshold_100_60_1: "size_threshold (100, 60) 1 = 5404319552844595 / 2251799813685248"
proof -
  have r0: "dbl 60 = 60"
    by (subst dbl_eval [where n = 47]) (simp_all add: round_even_def)
  have r1: "dbl (1 / 25) = 5764607523034235 / 144115188075855872"
    by (subst dbl_eval [where n = 57]) (simp_all add: round_even_def)
  have r2: "dbl (86469112845513525 / 36028797018963968) = 5404319552844595 / 2251799813685248"
    by (subst dbl_eval [where n = 51]) (simp_all add: round_even_def)
  have r3: "dbl (5404319552844595 / 2251799813685248) = 5404319552844595 / 2251799813685248"
    by (subst dbl_eval [where n = 51]) (simp_all add: round_even_def)
  have r4: "dbl 1 = 1"
    by (subst dbl_eval [where n = 52]) (simp_all add: round_even_def)
  show ?thesis
    by (simp add: size_threshold_def fmul_def r0 r1 r2 r3 r4)
qed

lemma threshold_100_60_3: "size_threshold (100, 60) 3 = 2026619832316723 / 281474976710656"
proof -
  have r0: "dbl 60 = 60"
    by (subst dbl_eval [where n = 47]) (simp_all add: round_even_def)
  have r1: "dbl (1 / 25) = 5764607523034235 / 144115188075855872"
    by (subst dbl_eval [where n = 57]) (simp_all add: round_even_def)
  have r2: "dbl (86469112845513525 / 36028797018963968) = 5404319552844595 / 2251799813685248"
    by (subst dbl_eval [where n = 51]) (simp_all add: round_even_def)
  have r3: "dbl (5404319552844595 / 2251799813685248) = 5404319552844595 / 2251799813685248"
    by (subst dbl_eval [where n = 51]) (simp_all add: round_even_def)
  have r4: "dbl 3 = 3"
    by (subst dbl_eval [where n = 51]) (simp_all add: round_even_def)
  have r5: "dbl (16212958658533785 / 2251799813685248) = 2026619832316723 / 281474976710656"
    by (subst dbl_eval [where n = 50]) (simp_all add: round_even_def)
  show ?thesis
    by (simp add: size_threshold_def fmul_def r0 r1 r2 r3 r4 r5)
qed



lemma threshold_250_07: "size_threshold (250, 250) (7 / 10) = 7"
proof -
  have r0: "dbl 250 = 250"
    by (subst dbl_eval [where n = 45]) (simp_all add: round_even_def)
  have r1: "dbl (1 / 25) = 5764607523034235 / 144115188075855872"
    by (subst dbl_eval [where n = 57]) (simp_all add: round_even_def)
  have r2: "dbl (720575940379279375 / 72057594037927936) = 10"
    by (subst dbl_eval [where n = 49]) (simp_all add: round_even_def)
  have r3: "dbl 10 = 10"
    by (subst dbl_eval [where n = 49]) (simp_all add: round_even_def)
  have r4: "dbl (7 / 10) = 3152519739159347 / 4503599627370496"
    by (subst dbl_eval [where n = 53]) (simp_all add: round_even_def)
  have r5: "dbl (15762598695796735 / 2251799813685248) = 7"
    by (subst dbl_eval [where n = 50]) (simp_all add: round_even_def)
  show ?thesis
    by (simp add: size_threshold_def fmul_def r0 r1 r2 r3 r4 r5)
qed


section \<open>Properties of the compositor\<close>

subsection \<open>The position string\<close>

lemma position_loop_result:
  "position_loop (h, v) toks =
     (if \<exists>t \<in> set toks. t \<notin> {str ''right'', str ''left'', str ''bottom'', str ''top''}
      then Inl ValueError_position
      else Inr (let hs = filter (\<lambda>t. t = str ''left'' \<or> t = str ''right'') toks in
                  if hs = [] then h else if last hs = str ''left'' then 1 else - 1,
                let vs = filter (\<lambda>t. t = str ''top'' \<or> t = str ''bottom'') toks in
                  if vs = [] then v else if last vs = str ''top'' then 1 else - 1))"
proof (induction toks arbitrary: h v)
  case Nil
  then show ?case by simp
next
  case (Cons t toks)
  show ?case
    apply (simp only: position_loop.simps Cons.IH)
    apply (auto simp: Let_def str_def)
    done
qed

text \<open>
  C8, as the code has it. Every token of the position string that is not \<^verbatim>\<open>left\<close>,
  \<^verbatim>\<open>right\<close>, \<^verbatim>\<open>top\<close> or \<^verbatim>\<open>bottom\<close> raises the configuration error. Otherwise the parse
  succeeds with one value for each axis: the last token of that axis decides it, and an
  axis with no token keeps its default, right (\<open>-1\<close>) and bottom (\<open>-1\<close>). A string that
  repeats an axis or leaves one out is accepted.
\<close>

theorem parse_position_last_token:
  "parse_position position =
     (if \<exists>t \<in> set (split_ws position).
           t \<notin> {str ''right'', str ''left'', str ''bottom'', str ''top''}
      then Inl ValueError_position
      else Inr (let hs = filter (\<lambda>t. t = str ''left'' \<or> t = str ''right'') (split_ws position) in
                  if hs = [] then - 1 else if last hs = str ''left'' then 1 else - 1,
                let vs = filter (\<lambda>t. t = str ''top'' \<or> t = str ''bottom'') (split_ws position) in
                  if vs = [] then - 1 else if last vs = str ''top'' then 1 else - 1))"
  unfolding parse_position_def by (rule position_loop_result)

theorem parse_position_last_token_witness:
  "parse_position (str ''left top'') = Inr (1, 1)
   \<and> parse_position (str ''left up'') = Inl ValueError_position
   \<and> parse_position [] = Inr (- 1, - 1)"
  using parse_position_last_token [of "str ''left top''"]
    parse_position_last_token [of "str ''left up''"]
    parse_position_last_token [of "[]"]
  by (simp add: str_def is_space_def)

text \<open>
  The claim C8 as stated fails: \<^verbatim>\<open>'left'\<close> leaves the vertical axis out and
  \<^verbatim>\<open>'top left top right'\<close> repeats both axes, and neither raises.
\<close>

theorem parse_position_counterexample:
  "parse_position (str ''left'') = Inr (1, - 1)
   \<and> parse_position (str ''top left top right'') = Inr (- 1, 1)"
  by (simp add: parse_position_def str_def is_space_def)


subsection \<open>Auto-sizing\<close>

lemma size_loop_miss:
  "load_error sz = None \<Longrightarrow> \<not> threshold < real_of_int (snd (measure_at sz calibration)) \<Longrightarrow>
   size_loop load_error measure_at threshold sz
     = size_loop load_error measure_at threshold (sz + 2)"
  by (subst size_loop.simps) simp

lemma size_loop_skip:
  "(\<And>j. j < k \<Longrightarrow> load_error (sz + 2 * j) = None
       \<and> \<not> threshold < real_of_int (snd (measure_at (sz + 2 * j) calibration))) \<Longrightarrow>
   size_loop load_error measure_at threshold sz
     = size_loop load_error measure_at threshold (sz + 2 * k)"
proof (induction k)
  case 0
  show ?case by simp
next
  case (Suc k)
  have "size_loop load_error measure_at threshold sz
      = size_loop load_error measure_at threshold (sz + 2 * k)"
    by (rule Suc.IH) (simp add: Suc.prems)
  also have "\<dots> = size_loop load_error measure_at threshold (sz + 2 * k + 2)"
    using Suc.prems [of k] by (intro size_loop_miss) simp_all
  finally show ?case by (simp add: add.assoc)
qed

lemma size_loop_hit:
  assumes "load_error (sz + 2 * k) = None"
    and "threshold < real_of_int (snd (measure_at (sz + 2 * k) calibration))"
    and "\<And>j. j < k \<Longrightarrow> load_error (sz + 2 * j) = None
       \<and> \<not> threshold < real_of_int (snd (measure_at (sz + 2 * j) calibration))"
  shows "size_loop load_error measure_at threshold sz
     = Some (Inr (sz + 2 * k, snd (measure_at (sz + 2 * k) calibration)))"
proof -
  have "size_loop load_error measure_at threshold sz
      = size_loop load_error measure_at threshold (sz + 2 * k)"
    by (rule size_loop_skip) (rule assms(3))
  also have "\<dots> = Some (Inr (sz + 2 * k, snd (measure_at (sz + 2 * k) calibration)))"
    using assms(1,2) by (subst size_loop.simps) simp
  finally show ?thesis .
qed


text \<open>A loop that ends has met, at some size, the first failure or the first excess.\<close>

lemma size_loop_Some_D:
  assumes run: "size_loop load_error measure_at threshold sz = Some r"
  shows "\<exists>k. (\<forall>j<k. load_error (sz + 2 * j) = None
              \<and> \<not> threshold < real_of_int (snd (measure_at (sz + 2 * j) calibration)))
     \<and> (case r of
          Inl e \<Rightarrow> load_error (sz + 2 * k) = Some e
        | Inr p \<Rightarrow> load_error (sz + 2 * k) = None
            \<and> threshold < real_of_int (snd (measure_at (sz + 2 * k) calibration))
            \<and> p = (sz + 2 * k, snd (measure_at (sz + 2 * k) calibration)))"
proof (rule size_loop.raw_induct
    [where P = "\<lambda>l m t s r. \<exists>k. (\<forall>j<k. l (s + 2 * j) = None
              \<and> \<not> t < real_of_int (snd (m (s + 2 * j) calibration)))
     \<and> (case r of
          Inl e \<Rightarrow> l (s + 2 * k) = Some e
        | Inr p \<Rightarrow> l (s + 2 * k) = None
            \<and> t < real_of_int (snd (m (s + 2 * k) calibration))
            \<and> p = (s + 2 * k, snd (m (s + 2 * k) calibration)))", OF _ run])
  fix loop :: "(nat \<Rightarrow> error option) \<Rightarrow> (nat \<Rightarrow> pystr \<Rightarrow> int \<times> int) \<Rightarrow> real \<Rightarrow> nat
      \<Rightarrow> (error + nat \<times> int) option"
    and l m t s r
  assume IH: "\<And>l m t s r. loop l m t s = Some r \<Longrightarrow>
      \<exists>k. (\<forall>j<k. l (s + 2 * j) = None
              \<and> \<not> t < real_of_int (snd (m (s + 2 * j) calibration)))
       \<and> (case r of
            Inl e \<Rightarrow> l (s + 2 * k) = Some e
          | Inr p \<Rightarrow> l (s + 2 * k) = None
              \<and> t < real_of_int (snd (m (s + 2 * k) calibration))
              \<and> p = (s + 2 * k, snd (m (s + 2 * k) calibration)))"
    and body: "(case l s of
                  Some e \<Rightarrow> Some (Inl e)
                | None \<Rightarrow>
                    (let line_height = snd (m s calibration) in
                     if t < real_of_int line_height then Some (Inr (s, line_height))
                     else loop l m t (s + 2))) = Some r"
  show "\<exists>k. (\<forall>j<k. l (s + 2 * j) = None
              \<and> \<not> t < real_of_int (snd (m (s + 2 * j) calibration)))
       \<and> (case r of
            Inl e \<Rightarrow> l (s + 2 * k) = Some e
          | Inr p \<Rightarrow> l (s + 2 * k) = None
              \<and> t < real_of_int (snd (m (s + 2 * k) calibration))
              \<and> p = (s + 2 * k, snd (m (s + 2 * k) calibration)))"
  proof (cases "l s")
    case (Some e)
    with body have "r = Inl e" by simp
    with Some show ?thesis
      by (intro exI [of _ 0]) simp
  next
    case None
    show ?thesis
    proof (cases "t < real_of_int (snd (m s calibration))")
      case True
      with body None have "r = Inr (s, snd (m s calibration))"
        by (simp add: Let_def)
      with True None show ?thesis
        by (intro exI [of _ 0]) simp
    next
      case False
      with body None have "loop l m t (s + 2) = Some r"
        by (simp add: Let_def)
      from IH [OF this] obtain k where
        miss: "\<forall>j<k. l (s + 2 + 2 * j) = None
              \<and> \<not> t < real_of_int (snd (m (s + 2 + 2 * j) calibration))" and
        last: "(case r of
            Inl e \<Rightarrow> l (s + 2 + 2 * k) = Some e
          | Inr p \<Rightarrow> l (s + 2 + 2 * k) = None
              \<and> t < real_of_int (snd (m (s + 2 + 2 * k) calibration))
              \<and> p = (s + 2 + 2 * k, snd (m (s + 2 + 2 * k) calibration)))"
        by blast
      have "\<forall>j<Suc k. l (s + 2 * j) = None
              \<and> \<not> t < real_of_int (snd (m (s + 2 * j) calibration))"
      proof (intro allI impI)
        fix j assume "j < Suc k"
        show "l (s + 2 * j) = None \<and> \<not> t < real_of_int (snd (m (s + 2 * j) calibration))"
        proof (cases j)
          case 0
          with False None show ?thesis by simp
        next
          case (Suc i)
          with \<open>j < Suc k\<close> miss show ?thesis by (simp add: add.assoc)
        qed
      qed
      moreover from last have "case r of
            Inl e \<Rightarrow> l (s + 2 * Suc k) = Some e
          | Inr p \<Rightarrow> l (s + 2 * Suc k) = None
              \<and> t < real_of_int (snd (m (s + 2 * Suc k) calibration))
              \<and> p = (s + 2 * Suc k, snd (m (s + 2 * Suc k) calibration))"
        by (cases r) (simp_all add: add.assoc)
      ultimately show ?thesis
        by (intro exI [of _ "Suc k"] conjI)
    qed
  qed
qed


lemma least_hit:
  fixes P :: "nat \<Rightarrow> bool"
  assumes "P k"
  shows "\<exists>i\<le>k. P i \<and> (\<forall>j<i. \<not> P j)"
proof -
  have "P (LEAST i. P i)" using assms by (rule LeastI)
  moreover have "(LEAST i. P i) \<le> k" using assms by (rule Least_le)
  moreover have "\<forall>j<(LEAST i. P i). \<not> P j" using not_less_Least by blast
  ultimately show ?thesis by blast
qed
lemma size_threshold_mono:
  assumes "font_size1 \<le> font_size2"
  shows "size_threshold image_size font_size1 \<le> size_threshold image_size font_size2"
proof -
  have "0 \<le> fmul (real (min (fst image_size) (snd image_size))) 0.04"
    by (rule fmul_nonneg) simp_all
  then show ?thesis
    unfolding size_threshold_def using assms by (rule fmul_mono_right)
qed





text \<open>
  C4. For one image and one font, a larger \<open>font_size\<close> never selects a smaller size:
  when the loop selects a size for the larger \<open>font_size\<close>, it selects one for the
  smaller \<open>font_size\<close> too, and that size is not larger.
\<close>

theorem auto_size_monotone:
  assumes le: "font_size1 < font_size2"
    and run2: "auto_size load_error measure_at image_size font_size2 = Some (Inr (size2, margin2))"
  shows "\<exists>size1 margin1.
    auto_size load_error measure_at image_size font_size1 = Some (Inr (size1, margin1))
    \<and> size1 \<le> size2"
proof -
  let ?t1 = "size_threshold image_size font_size1"
  let ?t2 = "size_threshold image_size font_size2"
  from size_loop_Some_D [OF run2 [unfolded auto_size_def]] obtain k where
    miss2: "\<forall>j<k. load_error (2 + 2 * j) = None
        \<and> \<not> ?t2 < real_of_int (snd (measure_at (2 + 2 * j) calibration))" and
    load2: "load_error (2 + 2 * k) = None" and
    hit2: "?t2 < real_of_int (snd (measure_at (2 + 2 * k) calibration))" and
    r: "(size2, margin2) = (2 + 2 * k, snd (measure_at (2 + 2 * k) calibration))"
    by auto
  have loads: "load_error (2 + 2 * j) = None" if "j \<le> k" for j
    using that miss2 load2 by (cases "j = k") simp_all
  have "?t1 \<le> ?t2"
    using le by (intro size_threshold_mono) simp
  with hit2 have "?t1 < real_of_int (snd (measure_at (2 + 2 * k) calibration))"
    by simp
  from least_hit [of "\<lambda>k. ?t1 < real_of_int (snd (measure_at (2 + 2 * k) calibration))", OF this]
  obtain i where "i \<le> k" and
    hit: "?t1 < real_of_int (snd (measure_at (2 + 2 * i) calibration))" and
    miss: "\<forall>j<i. \<not> ?t1 < real_of_int (snd (measure_at (2 + 2 * j) calibration))"
    by blast
  have "size_loop load_error measure_at ?t1 2
      = Some (Inr (2 + 2 * i, snd (measure_at (2 + 2 * i) calibration)))"
  proof (rule size_loop_hit)
    show "load_error (2 + 2 * i) = None" using \<open>i \<le> k\<close> by (rule loads)
    show "?t1 < real_of_int (snd (measure_at (2 + 2 * i) calibration))" by (rule hit)
    fix j assume "j < i"
    with \<open>i \<le> k\<close> have "j \<le> k" by simp
    then have "load_error (2 + 2 * j) = None" by (rule loads)
    moreover from miss \<open>j < i\<close>
    have "\<not> ?t1 < real_of_int (snd (measure_at (2 + 2 * j) calibration))" by blast
    ultimately show "load_error (2 + 2 * j) = None
        \<and> \<not> ?t1 < real_of_int (snd (measure_at (2 + 2 * j) calibration))"
      by (rule conjI)
  qed
  with \<open>i \<le> k\<close> r show ?thesis by (simp add: auto_size_def)
qed

lemma example_sizes:
  "auto_size (truetype_error example_pil font_file) (getsize example_pil font_file)
     (100, 60) 1 = Some (Inr (4, 4))"
  "auto_size (truetype_error example_pil font_file) (getsize example_pil font_file)
     (100, 60) 3 = Some (Inr (8, 8))"
  by (simp_all add: auto_size_def threshold_100_60_1 threshold_100_60_3 size_loop.simps
      example_pil_def calibration_def)

theorem auto_size_monotone_witness:
  "(1 :: real) < 3
   \<and> auto_size (truetype_error example_pil []) (getsize example_pil []) (100, 60) 3
       = Some (Inr (8, 8))
   \<and> (\<exists>size1 margin1.
         auto_size (truetype_error example_pil []) (getsize example_pil []) (100, 60) 1
           = Some (Inr (size1, margin1)) \<and> size1 \<le> 8)"
proof -
  have lt: "(1 :: real) < 3" by simp
  note run2 = example_sizes(2) [of "[]"]
  from auto_size_monotone [OF lt run2] lt run2 show ?thesis by simp
qed


subsection \<open>Layout\<close>

lemma length_plot_loop:
  "length (plot_loop font im_w margin spacing h_pos y lines) = length lines"
  by (induction lines arbitrary: y) (simp_all add: Let_def case_prod_beta split del: if_split)

lemma plot_loop_hd_y:
  "lines \<noteq> [] \<Longrightarrow> dc_y (plot_loop font im_w margin spacing h_pos y lines ! 0) = y"
  by (cases lines) (simp_all add: Let_def case_prod_beta split del: if_split)

lemma plot_loop_nth:
  "i < length lines \<Longrightarrow>
   dc_line (plot_loop font im_w margin spacing h_pos y lines ! i) = lines ! i \<and>
   dc_x (plot_loop font im_w margin spacing h_pos y lines ! i) =
     (if h_pos = - 1 then im_w - fst (font (lines ! i)) - margin else margin) \<and>
   dc_align (plot_loop font im_w margin spacing h_pos y lines ! i) =
     (if h_pos = 1 then str ''left'' else str ''right'')"
proof (induction lines arbitrary: y i)
  case Nil
  then show ?case by simp
next
  case (Cons line rest)
  show ?case
  proof (cases i)
    case 0
    then show ?thesis by (simp add: Let_def case_prod_beta)
  next
    case (Suc k)
    with Cons.prems have "k < length rest" by simp
    from Cons.IH [OF this] show ?thesis
      unfolding Suc by (simp add: Let_def case_prod_beta cong: if_cong split del: if_split)
  qed
qed

lemma plot_loop_advance:
  "Suc i < length lines \<Longrightarrow>
   dc_y (plot_loop font im_w margin spacing h_pos y lines ! Suc i) =
   fadd (dc_y (plot_loop font im_w margin spacing h_pos y lines ! i))
     (fadd (real_of_int (snd (font (lines ! i)))) spacing)"
proof (induction lines arbitrary: y i)
  case Nil
  then show ?case by simp
next
  case (Cons line rest)
  show ?case
  proof (cases i)
    case 0
    with Cons.prems have "rest \<noteq> []" by auto
    with 0 show ?thesis
      by (simp add: Let_def case_prod_beta plot_loop_hd_y split del: if_split)
  next
    case (Suc k)
    with Cons.prems have "Suc k < length rest" by simp
    from Cons.IH [OF this] show ?thesis
      unfolding Suc by (simp add: Let_def case_prod_beta cong: if_cong split del: if_split)
  qed
qed
lemma dbl_layout_examples:
  "dbl 60 = 60" "dbl 4 = 4" "dbl 52 = 52" "dbl (1 / 2) = 1 / 2" "dbl (9 / 2) = 9 / 2"
  "dbl (17 / 2) = 17 / 2" "dbl (95 / 2) = 95 / 2" "dbl (103 / 2) = 103 / 2"
proof -
  have r0: "dbl 60 = 60"
    by (subst dbl_eval [where n = 47]) (simp_all add: round_even_def)
  have r1: "dbl (17 / 2) = 17 / 2"
    by (subst dbl_eval [where n = 49]) (simp_all add: round_even_def)
  have r2: "dbl (103 / 2) = 103 / 2"
    by (subst dbl_eval [where n = 47]) (simp_all add: round_even_def)
  have r3: "dbl 4 = 4"
    by (subst dbl_eval [where n = 50]) (simp_all add: round_even_def)
  have r4: "dbl (95 / 2) = 95 / 2"
    by (subst dbl_eval [where n = 47]) (simp_all add: round_even_def)
  have r5: "dbl (1 / 2) = 1 / 2"
    by (subst dbl_eval [where n = 53]) (simp_all add: round_even_def)
  have r6: "dbl (9 / 2) = 9 / 2"
    by (subst dbl_eval [where n = 50]) (simp_all add: round_even_def)
  have r7: "dbl 52 = 52"
    by (subst dbl_eval [where n = 47]) (simp_all add: round_even_def)
  show "dbl 60 = 60" "dbl 4 = 4" "dbl 52 = 52" "dbl (1 / 2) = 1 / 2" "dbl (9 / 2) = 9 / 2"
    "dbl (17 / 2) = 17 / 2" "dbl (95 / 2) = 95 / 2" "dbl (103 / 2) = 103 / 2"
    by (simp_all only: r0 r1 r2 r3 r4 r5 r6 r7)
qed

text \<open>
  C1. \<^verbatim>\<open>plot_lines\<close> makes one \<^verbatim>\<open>draw.text\<close> call for each line, in order. For a list of
  lines that is not empty, the first call is at \<open>y = margin\<close> when the vertical position
  is top (\<open>v_pos = 1\<close>) and at \<open>y = im_h - wm_height - margin\<close> when it is bottom
  (\<open>v_pos = -1\<close>); every call is at \<open>x = margin\<close> when the horizontal position is left
  (\<open>h_pos = 1\<close>) and at \<open>x = im_w - w - margin\<close>, with \<open>w\<close> the measured width of its own
  line, when it is right (\<open>h_pos = -1\<close>); and each next call is lower by the height of
  the line before it plus the spacing. The horizontal offsets are integers and exact;
  the vertical ones are floats, and their differences and sums are the double
  operations \<open>fsub\<close> and \<open>fadd\<close> of the code's \<^verbatim>\<open>-\<close> and \<^verbatim>\<open>+\<close>.
\<close>

theorem plot_lines_offsets:
  assumes "lines \<noteq> []"
  shows "length (plot_calls font im_w im_h wm_height margin spacing h_pos v_pos lines) = length lines
    \<and> (v_pos = 1 \<longrightarrow>
         dc_y (plot_calls font im_w im_h wm_height margin spacing h_pos v_pos lines ! 0)
           = real_of_int margin)
    \<and> (v_pos = - 1 \<longrightarrow>
         dc_y (plot_calls font im_w im_h wm_height margin spacing h_pos v_pos lines ! 0)
           = fsub (fsub (real_of_int im_h) wm_height) (real_of_int margin))
    \<and> (\<forall>i<length lines.
         dc_line (plot_calls font im_w im_h wm_height margin spacing h_pos v_pos lines ! i) = lines ! i
         \<and> (h_pos = 1 \<longrightarrow>
              dc_x (plot_calls font im_w im_h wm_height margin spacing h_pos v_pos lines ! i) = margin)
         \<and> (h_pos = - 1 \<longrightarrow>
              dc_x (plot_calls font im_w im_h wm_height margin spacing h_pos v_pos lines ! i)
                = im_w - fst (font (lines ! i)) - margin))
    \<and> (\<forall>i. Suc i < length lines \<longrightarrow>
         dc_y (plot_calls font im_w im_h wm_height margin spacing h_pos v_pos lines ! Suc i)
           = fadd (dc_y (plot_calls font im_w im_h wm_height margin spacing h_pos v_pos lines ! i))
               (fadd (real_of_int (snd (font (lines ! i)))) spacing))"
  using assms
  by (simp add: plot_calls_def Let_def length_plot_loop plot_loop_hd_y plot_loop_nth
      plot_loop_advance)
theorem plot_lines_offsets_witness:
  "[str ''ab'', str ''c''] \<noteq> ([] :: pystr list)
   \<and> map (\<lambda>c. (dc_x c, dc_y c))
        (plot_calls (getsize example_pil [] 4) 100 60 (17 / 2) 4 (1 / 2) (- 1) (- 1)
           [str ''ab'', str ''c''])
       = [(88, 95 / 2), (92, 52)]
   \<and> map (\<lambda>c. (dc_x c, dc_y c))
        (plot_calls (getsize example_pil [] 4) 100 60 (17 / 2) 4 (1 / 2) 1 1
           [str ''ab'', str ''c''])
       = [(4, 4), (4, 17 / 2)]"
proof -
  have ne: "[str ''ab'', str ''c''] \<noteq> ([] :: pystr list)" by simp
  from plot_lines_offsets [OF ne, of "getsize example_pil [] 4" 100 60 "17 / 2" 4 "1 / 2" "- 1" "- 1"]
    plot_lines_offsets [OF ne, of "getsize example_pil [] 4" 100 60 "17 / 2" 4 "1 / 2" 1 1]
  show ?thesis
    by (simp add: plot_calls_def example_pil_def str_def fadd_def fsub_def dbl_layout_examples)
qed


text \<open>
  C9. \<^verbatim>\<open>''.split('\n')\<close> is the list of one empty line, so the loop of lines 66 to 69 runs
  once: it adds the height the font measures for the empty line and one spacing, and
  line 70 takes that one spacing off again. The font engine measures the empty line as
  0 by 0; then \<open>wm_height\<close> is exactly zero, whatever the spacing is. More generally,
  when the measured height of the empty line is not positive, neither is \<open>wm_height\<close>:
  the rounding of the two additions and the subtraction keeps the sign.
\<close>

theorem empty_text_wm_height:
  "split_on 10 [] = [[]]
   \<and> (snd (font []) = 0 \<longrightarrow> snd (text_bbox font spacing (split_on 10 [])) = 0)
   \<and> (snd (font []) \<le> 0 \<longrightarrow> snd (text_bbox font spacing (split_on 10 [])) \<le> 0)"
proof (intro conjI impI)
  show "split_on 10 [] = [[]]" by simp
  have eq: "snd (text_bbox font spacing (split_on 10 []))
      = dbl (dbl (dbl (real_of_int (snd (font []))) + dbl spacing) - dbl spacing)"
    by (simp add: text_bbox_def Let_def fadd_def fsub_def split: prod.split)
  {
    assume "snd (font []) = 0"
    then show "snd (text_bbox font spacing (split_on 10 [])) = 0"
      unfolding eq by simp
  }
  {
    assume "snd (font []) \<le> 0"
    then have "dbl (real_of_int (snd (font []))) \<le> 0"
      by (intro dbl_nonpos) simp
    then have "dbl (real_of_int (snd (font []))) + dbl spacing \<le> dbl spacing"
      by simp
    then have "dbl (dbl (real_of_int (snd (font []))) + dbl spacing) \<le> dbl (dbl spacing)"
      by (rule dbl_mono)
    then have "dbl (dbl (real_of_int (snd (font []))) + dbl spacing) - dbl spacing \<le> 0"
      by simp
    then show "snd (text_bbox font spacing (split_on 10 [])) \<le> 0"
      unfolding eq by (rule dbl_nonpos)
  }
qed

theorem empty_text_wm_height_witness:
  "snd (text_bbox (getsize example_pil [] 4) (fmul (1 / 5) 4) (split_on 10 [])) = 0"
  using empty_text_wm_height [of "getsize example_pil [] 4" "fmul (1 / 5) 4"]
  by (simp add: example_pil_def)


subsection \<open>The shadow\<close>

lemma dbl_shadow_examples:
  "dbl 10 = 10"
  "dbl (1 / 4) = 1 / 4"
  "dbl (5 / 2) = 5 / 2"
  "dbl 255 = 255"
  "dbl (1 / 2) = 1 / 2"
  "dbl (255 / 2) = 255 / 2"
  "dbl 90 = 90"
  "dbl (7 / 10) = 3152519739159347 / 4503599627370496"
  "dbl (141863388262170615 / 2251799813685248) = 8866461766385663 / 140737488355328"
  "dbl 100 = 100"
  "dbl (57 / 100) = 5134103575202365 / 9007199254740992"
  "dbl (128352589380059125 / 2251799813685248) = 8022036836253695 / 140737488355328"
  "dbl (803892533485633485 / 4503599627370496) = 357 / 2"
proof -
  have r0: "dbl 10 = 10"
    by (subst dbl_eval [where n = 49]) (simp_all add: round_even_def)
  have r1: "dbl (1 / 4) = 1 / 4"
    by (subst dbl_eval [where n = 54]) (simp_all add: round_even_def)
  have r2: "dbl (5 / 2) = 5 / 2"
    by (subst dbl_eval [where n = 51]) (simp_all add: round_even_def)
  have r3: "dbl 0 = 0" by simp
  have r4: "dbl 255 = 255"
    by (subst dbl_eval [where n = 45]) (simp_all add: round_even_def)
  have r5: "dbl (1 / 2) = 1 / 2"
    by (subst dbl_eval [where n = 53]) (simp_all add: round_even_def)
  have r6: "dbl (255 / 2) = 255 / 2"
    by (subst dbl_eval [where n = 46]) (simp_all add: round_even_def)
  have r7: "dbl 90 = 90"
    by (subst dbl_eval [where n = 46]) (simp_all add: round_even_def)
  have r8: "dbl (7 / 10) = 3152519739159347 / 4503599627370496"
    by (subst dbl_eval [where n = 53]) (simp_all add: round_even_def)
  have r9: "dbl (141863388262170615 / 2251799813685248) = 8866461766385663 / 140737488355328"
    by (subst dbl_eval [where n = 47]) (simp_all add: round_even_def)
  have r10: "dbl 100 = 100"
    by (subst dbl_eval [where n = 46]) (simp_all add: round_even_def)
  have r11: "dbl (57 / 100) = 5134103575202365 / 9007199254740992"
    by (subst dbl_eval [where n = 53]) (simp_all add: round_even_def)
  have r12: "dbl (128352589380059125 / 2251799813685248) = 8022036836253695 / 140737488355328"
    by (subst dbl_eval [where n = 47]) (simp_all add: round_even_def)
  have r13: "dbl (803892533485633485 / 4503599627370496) = 357 / 2"
    by (subst dbl_eval [where n = 45]) (simp_all add: round_even_def)
  show "dbl 10 = 10"
    "dbl (1 / 4) = 1 / 4"
    "dbl (5 / 2) = 5 / 2"
    "dbl 255 = 255"
    "dbl (1 / 2) = 1 / 2"
    "dbl (255 / 2) = 255 / 2"
    "dbl 90 = 90"
    "dbl (7 / 10) = 3152519739159347 / 4503599627370496"
    "dbl (141863388262170615 / 2251799813685248) = 8866461766385663 / 140737488355328"
    "dbl 100 = 100"
    "dbl (57 / 100) = 5134103575202365 / 9007199254740992"
    "dbl (128352589380059125 / 2251799813685248) = 8022036836253695 / 140737488355328"
    "dbl (803892533485633485 / 4503599627370496) = 357 / 2"
    by (simp_all only: r0 r1 r2 r3 r4 r5 r6 r7 r8 r9 r10 r11 r12 r13)
qed

lemma py_int_examples:
  "py_int (5 / 2) = 2" "py_int (255 / 2) = 127" "py_int 0 = 0"
  "py_int (8866461766385663 / 140737488355328) = 62" "py_int (8022036836253695 / 140737488355328) = 56" "py_int (357 / 2) = 178"
  by (simp_all add: py_int_def)

lemma shadow_base_size: "im_size (shadow_base im c) = im_size im"
  by (cases c) (simp add: shadow_base_def image_new_def putalpha_def Let_def)

lemma shadow_base_px:
  "im_px (shadow_base im (r, g, b, a)) p =
     \<lparr>red = clip8 (py_int (fmul r 255)), green = clip8 (py_int (fmul g 255)),
      blue = clip8 (py_int (fmul b 255)),
      alpha = clip8 (py_int (fmul (real_of_int (uint (alpha (im_px im p)))) a))\<rparr>"
  by (simp add: shadow_base_def image_new_def putalpha_def Let_def point_def alpha_band_def)

text \<open>
  C2, as the code has it. The layer of lines 18 and 19 has the size of the text layer;
  each colour channel is the double product of the shadow colour's component and 255,
  truncated to an integer and clipped to a byte; the alpha of a pixel is the double
  product of the text layer's alpha there and the shadow colour's alpha, truncated
  likewise. The compositor shifts this layer by \<open>int(margin * shadow_offset)\<close> whole
  pixels on both axes, the product again a double product and the data wrapping around
  the edges, and then blurs it with radius \<open>shadow_blur_radius * margin\<close>; the shadow
  has the size of the text layer.
\<close>

theorem shadow_image_layer:
  "im_size (shadow_base wm_image (r, g, b, a)) = im_size wm_image
   \<and> red (im_px (shadow_base wm_image (r, g, b, a)) p) = clip8 (py_int (fmul r 255))
   \<and> green (im_px (shadow_base wm_image (r, g, b, a)) p) = clip8 (py_int (fmul g 255))
   \<and> blue (im_px (shadow_base wm_image (r, g, b, a)) p) = clip8 (py_int (fmul b 255))
   \<and> alpha (im_px (shadow_base wm_image (r, g, b, a)) p)
       = clip8 (py_int (fmul (real_of_int (uint (alpha (im_px wm_image p)))) a))
   \<and> shadow_image env wm_image margin shadow_offset shadow_blur_radius (r, g, b, a)
       = blur_filter env (fmul shadow_blur_radius (real_of_int margin))
           (chops_offset (shadow_base wm_image (r, g, b, a))
              (py_int (fmul (real_of_int margin) shadow_offset))
              (py_int (fmul (real_of_int margin) shadow_offset)))
   \<and> im_px (chops_offset (shadow_base wm_image (r, g, b, a)) dx dy) (x, y)
       = im_px (shadow_base wm_image (r, g, b, a))
           (nat ((int x - dx) mod int (fst (im_size wm_image))),
            nat ((int y - dy) mod int (snd (im_size wm_image))))
   \<and> im_size (shadow_image env wm_image margin shadow_offset shadow_blur_radius (r, g, b, a))
       = im_size wm_image"
  by (simp add: shadow_base_size shadow_base_px shadow_image_def make_shadow_def Let_def
      chops_offset_def blur_filter_def split: prod.split)

theorem shadow_image_layer_witness:
  "im_size (shadow_image example_pil dot_layer 10 (1 / 4) 0 (0, 0, 0, 1 / 2)) = (4, 1)
   \<and> shadow_image example_pil dot_layer 10 (1 / 4) 0 (0, 0, 0, 1 / 2)
       = blur_filter example_pil 0 (chops_offset (shadow_base dot_layer (0, 0, 0, 1 / 2)) 2 2)"
proof -
  note layer = shadow_image_layer [where wm_image = dot_layer and r = 0 and g = 0 and b = 0
      and a = "1 / 2" and env = example_pil and margin = 10 and shadow_offset = "1 / 4"
      and shadow_blur_radius = 0 and p = "(0, 0)" and dx = 0 and dy = 0 and x = 0 and y = 0]
  from layer
  have "im_size (shadow_image example_pil dot_layer 10 (1 / 4) 0 (0, 0, 0, 1 / 2))
      = im_size dot_layer"
    by (elim conjE)
  then have size: "im_size (shadow_image example_pil dot_layer 10 (1 / 4) 0 (0, 0, 0, 1 / 2))
      = (4, 1)"
    by (simp add: dot_layer_def)
  from layer
  have "shadow_image example_pil dot_layer 10 (1 / 4) 0 (0, 0, 0, 1 / 2)
      = blur_filter example_pil (fmul 0 (real_of_int 10))
          (chops_offset (shadow_base dot_layer (0, 0, 0, 1 / 2))
             (py_int (fmul (real_of_int 10) (1 / 4))) (py_int (fmul (real_of_int 10) (1 / 4))))"
    by (elim conjE)
  then have "shadow_image example_pil dot_layer 10 (1 / 4) 0 (0, 0, 0, 1 / 2)
      = blur_filter example_pil 0 (chops_offset (shadow_base dot_layer (0, 0, 0, 1 / 2)) 2 2)"
    by (simp add: fmul_def dbl_shadow_examples py_int_examples)
  with size show ?thesis by (rule conjI)
qed

text \<open>
  The claim C2 as stated fails: the alpha is not the scaled alpha and the shift is not
  the product. For a text pixel of alpha 255 and a shadow colour of alpha 1/2 the
  shadow's alpha is 127, not 127.5, and for \<open>margin = 10\<close> and \<open>shadow_offset = 1/4\<close> the
  layer moves by 2 pixels, not by 2.5: the opaque pixel of the text layer at \<open>x = 0\<close>
  gives the shadow pixel at \<open>x = 2\<close>. Even where the scaled value is a whole number the
  layer can miss it: a text alpha of 90 and a shadow alpha of 0.7 give 62, not 63, and
  \<open>margin = 100\<close> with \<open>shadow_offset = 0.57\<close> moves the layer by 56 pixels, not by 57,
  the double products being just below 63 and 57.
\<close>

theorem shadow_image_counterexample:
  "alpha (im_px (shadow_image example_pil dot_layer 10 (1/4) 0 (0, 0, 0, 1/2)) (2, 0)) = 127
   \<and> alpha (im_px (shadow_image example_pil dot_layer 10 (1/4) 0 (0, 0, 0, 1/2)) (0, 0)) = 0
   \<and> real (unat (alpha (im_px (shadow_base dot_layer (0, 0, 0, 1/2)) (0, 0))))
       \<noteq> real (unat (alpha (im_px dot_layer (0, 0)))) * (1/2)
   \<and> real_of_int (py_int (fmul (real_of_int 10) (1/4))) \<noteq> real_of_int 10 * (1/4)
   \<and> alpha (im_px (shadow_base (image_new (4, 1) (255, 255, 255, 90)) (0, 0, 0, 0.7)) (0, 0)) = 62
   \<and> (90 :: real) * 0.7 = 63
   \<and> py_int (fmul (real_of_int 100) 0.57) = 56
   \<and> real_of_int 100 * 0.57 = (57 :: real)"
  by (simp add: shadow_image_def make_shadow_def shadow_base_px Let_def chops_offset_def
      blur_filter_def example_pil_def dot_layer_def image_new_def fmul_def dbl_shadow_examples
      py_int_examples clip8_def shadow_base_size)


subsection \<open>Opacity zero\<close>

lemma div255_exact: "d < 256 \<Longrightarrow> div255 (d * 255) = d"
proof -
  assume d: "d < 256"
  have "(d * 255 + 128) div 256 = (if d \<le> 128 then d else d - 1)"
    using d by (simp add: div_nat_eqI)
  moreover have "(d + (d * 255 + 128)) div 256 = d"
    by (rule div_nat_eqI) simp_all
  moreover have "d > 128 \<Longrightarrow> (d - 1 + (d * 255 + 128)) div 256 = d"
    using d by (intro div_nat_eqI) simp_all
  ultimately show ?thesis
    by (simp add: div255_def Let_def)
qed

lemma blend8_0: "blend8 0 d s = d"
proof -
  have "unat d < 256" using unsigned_less [of d] by simp
  then show ?thesis by (simp add: blend8_def div255_exact)
qed

lemma enhance_0: "enhance_brightness 0 b = (\<lambda>p. 0)"
  by (simp add: enhance_brightness_def py_int_def clip8_def)

text \<open>A value of 150 at the factor 0.42 becomes 62: the single-precision product is below 63.\<close>

lemma enhance_brightness_example: "enhance_brightness 0.42 (\<lambda>p. 150) p = 62"
proof -
  have r0: "dbl (21 / 50) = 7566047373982433 / 18014398509481984"
    by (subst dbl_eval [where n = 54]) (simp_all add: round_even_def)
  have r1: "sgl (7566047373982433 / 18014398509481984) = 14092861 / 33554432"
    by (subst sgl_eval [where n = 25]) (simp_all add: round_even_def)
  have r2: "sgl (1056964575 / 16777216) = 16515071 / 262144"
    by (subst sgl_eval [where n = 18]) (simp_all add: round_even_def)
  show ?thesis
    by (simp add: enhance_brightness_def r0 r1 r2 py_int_def clip8_def)
qed

lemma rgba_rebuild: "\<lparr>red = red d, green = green d, blue = blue d, alpha = alpha d\<rparr> = d"
  by (cases d) simp

lemma composite_transparent:
  "(\<And>p. alpha (im_px mask_image p) = 0) \<Longrightarrow> composite image1 image2 mask_image = image2"
  by (simp add: composite_def blend8_0 Let_def rgba_rebuild)

lemma putalpha_0: "alpha (im_px (putalpha im (\<lambda>p. 0)) p) = 0"
  by (simp add: putalpha_def)
text \<open>
  C5. With \<open>opacity = 0\<close> the compositor returns the input image itself, pixel for
  pixel, whenever it returns: it raises for a bad position string, it raises or does
  not return when the sizing loop does, and in every other case the result is the
  input image.
\<close>

theorem add_watermark_opacity_0:
  "add_watermark env input_image text position font_file font_size 0 line_spacing
       shadow_offset shadow_blur_radius shadow_color =
   (case parse_position position of
      Inl e \<Rightarrow> Some (Inl e)
    | Inr hv \<Rightarrow>
        (case auto_size (truetype_error env font_file) (getsize env font_file)
                (im_size input_image) font_size of
           None \<Rightarrow> None
         | Some (Inl e) \<Rightarrow> Some (Inl e)
         | Some (Inr r) \<Rightarrow> Some (Inr input_image)))"
proof (cases "parse_position position")
  case (Inl e)
  then show ?thesis
    by (simp add: add_watermark_def split: prod.split)
next
  case (Inr hv)
  show ?thesis
  proof (cases "auto_size (truetype_error env font_file) (getsize env font_file)
      (im_size input_image) font_size")
    case None
    with Inr show ?thesis
      by (simp add: add_watermark_def split: prod.split)
  next
    case (Some r)
    show ?thesis
    proof (cases r)
      case (Inl e)
      with Some Inr show ?thesis
        by (simp add: add_watermark_def split: prod.split)
    next
      case sized: (Inr p)
      with Some Inr show ?thesis
        by (simp add: add_watermark_def Let_def enhance_0 composite_transparent putalpha_0
            split: prod.split)
    qed
  qed
qed

theorem add_watermark_opacity_0_witness:
  "add_watermark example_pil example_photo (str ''hi'') (str ''left top'') [] 1 0 (1 / 5)
       (1 / 25) (1 / 20) default_shadow_color = Some (Inr example_photo)"
proof -
  have "parse_position (str ''left top'') = Inr (1, 1)"
    by (simp add: parse_position_def str_def is_space_def)
  moreover have "auto_size (truetype_error example_pil []) (getsize example_pil [])
      (im_size example_photo) 1 = Some (Inr (4, 4))"
    by (simp add: example_photo_def image_new_def example_sizes)
  ultimately show ?thesis
    using add_watermark_opacity_0 [of example_pil example_photo "str ''hi''" "str ''left top''"
        "[]" 1 "1 / 5" "1 / 25" "1 / 20" default_shadow_color]
    by simp
qed


section \<open>Properties of the font locator\<close>

lemma split_on_pieces:
  "p \<in> set (split_on sep s) \<Longrightarrow> sep \<notin> set p \<and> set p \<subseteq> set s"
proof (induction s arbitrary: p)
  case Nil
  then show ?case by simp
next
  case (Cons c cs)
  show ?case
  proof (cases "c = sep")
    case True
    with Cons.prems have "p = [] \<or> p \<in> set (split_on sep cs)" by simp
    with Cons.IH show ?thesis by auto
  next
    case False
    show ?thesis
    proof (cases "split_on sep cs")
      case Nil
      with False Cons.prems show ?thesis by simp
    next
      case pieces: (Cons q qs)
      with False Cons.prems have "p = c # q \<or> p \<in> set qs" by simp
      moreover have "sep \<notin> set q \<and> set q \<subseteq> set cs"
        using Cons.IH [of q] pieces by simp
      moreover have "\<And>r. r \<in> set qs \<Longrightarrow> sep \<notin> set r \<and> set r \<subseteq> set cs"
        using Cons.IH pieces by simp
      ultimately show ?thesis using False by auto
    qed
  qed
qed

lemma strip_blank:
  assumes "\<forall>c \<in> set n. is_space c"
  shows "strip n = []"
proof -
  from assms have "dropWhile is_space n = []" by simp
  then show ?thesis
    unfolding strip_def by (simp only: rev.simps dropWhile.simps)
qed

lemma search_names_blank:
  assumes "\<And>c. c \<in> set family \<Longrightarrow> c = 44 \<or> is_space c"
  shows "search_names family = []"
proof -
  have "strip p = []" if "p \<in> set (split_on 44 family)" for p
  proof (rule strip_blank, rule ballI)
    fix c assume "c \<in> set p"
    with split_on_pieces [OF that] have "c \<noteq> 44" "c \<in> set family" by auto
    with assms show "is_space c" by auto
  qed
  then show ?thesis
    by (simp add: search_names_def filter_empty_conv)
qed

lemma last_dropWhile_keep: "dropWhile P xs \<noteq> [] \<Longrightarrow> last (dropWhile P xs) = last xs"
  by (induction xs) (auto split: if_splits)

lemma strip_ends:
  assumes "strip n \<noteq> []"
  shows "\<not> is_space (hd (strip n)) \<and> \<not> is_space (last (strip n)) \<and> set (strip n) \<subseteq> set n"
proof -
  let ?t = "dropWhile is_space n"
  let ?u = "dropWhile is_space (rev ?t)"
  from assms have u: "?u \<noteq> []" by (simp add: strip_def)
  then have t: "?t \<noteq> []" by (cases "?t = []") simp_all
  have "hd (strip n) = last ?u" using u by (simp add: strip_def hd_rev)
  also have "\<dots> = last (rev ?t)" using u by (rule last_dropWhile_keep)
  also have "\<dots> = hd ?t" using t by (simp add: last_rev)
  finally have "hd (strip n) = hd ?t" .
  moreover have "\<not> is_space (hd ?t)" using t by (rule hd_dropWhile)
  moreover have "last (strip n) = hd ?u" using u by (simp add: strip_def last_rev)
  moreover have "\<not> is_space (hd ?u)" using u by (rule hd_dropWhile)
  moreover have "set (strip n) \<subseteq> set n"
    by (auto simp: strip_def dest!: set_dropWhileD)
  ultimately show ?thesis by simp
qed

lemma search_names_clean:
  assumes "n \<in> set (search_names family)"
  shows "n \<noteq> [] \<and> \<not> is_space (hd n) \<and> \<not> is_space (last n) \<and> 44 \<notin> set n"
proof -
  from assms obtain p where p: "p \<in> set (split_on 44 family)" "strip p \<noteq> []" "n = strip p"
    by (auto simp: search_names_def)
  from strip_ends [OF p(2)] split_on_pieces [OF p(1)] p show ?thesis by auto
qed

text \<open>
  C10, as the code has it. The names the locator searches are the pieces of the family
  string between commas, stripped, without the empty ones: each is non-empty, has no
  white space at either end and no comma. On macOS (\<^verbatim>\<open>sys.platform == 'darwin'\<close>) the
  result is that of the search for these names, so two family strings with the same names
  resolve alike, as \<^verbatim>\<open>'A, B'\<close> and \<^verbatim>\<open>'A,B'\<close> do; a family string of commas and white space
  only has no names and raises the not-found error whatever the files and directories
  are, the search loop having nothing to visit. On every other platform the locator
  raises the unsupported-platform error before it looks at the family string.
\<close>

theorem get_font_search_names:
  "(\<forall>n \<in> set (search_names family).
      n \<noteq> [] \<and> \<not> is_space (hd n) \<and> \<not> is_space (last n) \<and> 44 \<notin> set n)
   \<and> (platform w = str ''darwin'' \<longrightarrow>
        get_font w family
          = names_loop w [str ''/System/Library/Fonts'', home_fonts w] (search_names family))
   \<and> (search_names family = search_names family2 \<longrightarrow> get_font w family = get_font w family2)
   \<and> get_font w (str ''A, B'') = get_font w (str ''A,B'')
   \<and> ((\<forall>c \<in> set family. c = 44 \<or> is_space c) \<longrightarrow>
        search_names family = []
        \<and> (platform w = str ''darwin'' \<longrightarrow> get_font w family = Some (Inl IOError_font_not_found)))
   \<and> (platform w \<noteq> str ''darwin'' \<longrightarrow> get_font w family = Some (Inl RuntimeError_platform))"
proof (intro conjI)
  show "\<forall>n \<in> set (search_names family).
      n \<noteq> [] \<and> \<not> is_space (hd n) \<and> \<not> is_space (last n) \<and> 44 \<notin> set n"
    using search_names_clean by blast
  show "platform w = str ''darwin'' \<longrightarrow>
        get_font w family
          = names_loop w [str ''/System/Library/Fonts'', home_fonts w] (search_names family)"
    by (simp add: get_font_def)
  show "search_names family = search_names family2 \<longrightarrow> get_font w family = get_font w family2"
    by (simp add: get_font_def)
  have "search_names (str ''A, B'') = search_names (str ''A,B'')"
    by (simp add: search_names_def strip_def is_space_def str_def)
  then show "get_font w (str ''A, B'') = get_font w (str ''A,B'')"
    by (simp add: get_font_def)
  show "(\<forall>c \<in> set family. c = 44 \<or> is_space c) \<longrightarrow>
        search_names family = []
        \<and> (platform w = str ''darwin'' \<longrightarrow> get_font w family = Some (Inl IOError_font_not_found))"
  proof
    assume "\<forall>c \<in> set family. c = 44 \<or> is_space c"
    then have "search_names family = []" by (intro search_names_blank) blast
    then show "search_names family = []
        \<and> (platform w = str ''darwin'' \<longrightarrow> get_font w family = Some (Inl IOError_font_not_found))"
      by (simp add: get_font_def)
  qed
  show "platform w \<noteq> str ''darwin'' \<longrightarrow> get_font w family = Some (Inl RuntimeError_platform)"
    by (simp add: get_font_def)
qed

lemma example_font:
  "get_font example_world (str ''F'') = Some (Inr (str ''/System/Library/Fonts/F.ttf''))"
  by (simp add: get_font_def search_names_def strip_def is_space_def str_def traverse_dir_def
      traverse.simps search_exts_def path_join_def isfile_def isdir_def example_world_def)

theorem get_font_search_names_witness:
  "search_names (str '' F , ,G'') = [str ''F'', str ''G'']
   \<and> get_font example_world (str '' F , ,G'') = Some (Inr (str ''/System/Library/Fonts/F.ttf''))
   \<and> get_font example_world (str '', ,'') = Some (Inl IOError_font_not_found)
   \<and> get_font (example_world\<lparr>platform := str ''linux''\<rparr>) (str ''F'')
       = Some (Inl RuntimeError_platform)"
proof -
  note th = get_font_search_names
  have names: "search_names (str '' F , ,G'') = [str ''F'', str ''G'']"
    by (simp add: search_names_def strip_def is_space_def str_def)
  have darwin: "platform example_world = str ''darwin''"
    by (simp add: example_world_def)
  from th [of "str '' F , ,G''" example_world] darwin
  have "get_font example_world (str '' F , ,G'')
      = names_loop example_world [str ''/System/Library/Fonts'', home_fonts example_world]
          (search_names (str '' F , ,G''))"
    by blast
  also have "\<dots> = names_loop example_world
      [str ''/System/Library/Fonts'', home_fonts example_world] [str ''F'', str ''G'']"
    by (simp only: names)
  also have "\<dots> = Some (Inr (str ''/System/Library/Fonts/F.ttf''))"
    by (simp add: str_def traverse_dir_def traverse.simps search_exts_def path_join_def
        isfile_def isdir_def example_world_def)
  finally have found: "get_font example_world (str '' F , ,G'')
      = Some (Inr (str ''/System/Library/Fonts/F.ttf''))" .
  have "\<forall>c \<in> set (str '', ,''). c = 44 \<or> is_space c"
    by (simp add: str_def is_space_def)
  with th [of "str '', ,''" example_world] darwin
  have blank: "get_font example_world (str '', ,'') = Some (Inl IOError_font_not_found)"
    by blast
  have "platform (example_world\<lparr>platform := str ''linux''\<rparr>) \<noteq> str ''darwin''"
    by (simp add: str_def)
  with th [of "str ''F''" "example_world\<lparr>platform := str ''linux''\<rparr>"]
  have other: "get_font (example_world\<lparr>platform := str ''linux''\<rparr>) (str ''F'')
       = Some (Inl RuntimeError_platform)"
    by blast
  from names found blank other show ?thesis by (intro conjI)
qed

text \<open>
  The claim C10 as stated fails on a host that is not macOS: the family string
  \<^verbatim>\<open>', ,'\<close> raises the unsupported-platform error, not the not-found error.
\<close>

theorem get_font_counterexample:
  "get_font (example_world\<lparr>platform := str ''linux''\<rparr>) (str '', ,'')
     = Some (Inl RuntimeError_platform)
   \<and> get_font (example_world\<lparr>platform := str ''linux''\<rparr>) (str '', ,'')
     \<noteq> Some (Inl IOError_font_not_found)"
  by (simp add: get_font_def str_def)

section \<open>Properties of the driver\<close>

subsection \<open>What a run leaves on the trace\<close>

lemma save_image_trace:
  "save_image cd w im output_file quality = (w1, r) \<Longrightarrow>
   trace w1 = trace w \<or> (\<exists>path. trace w1 = Open_write path # trace w)"
  by (auto simp: save_image_def write_file_def split: jvalue.splits sum.splits)

lemma overlay_trace:
  "overlay cd w input_file im output_file overwrite = (w1, r) \<Longrightarrow>
   trace w1 = trace w \<or> (\<exists>path. trace w1 = Open_write path # trace w)"
  by (auto simp: overlay_def write_file_def split: jvalue.splits sum.splits option.splits)

lemma bind_job_Some:
  "Option.bind m (\<lambda>r. case r of Inl e \<Rightarrow> Some (w, Some e) | Inr im \<Rightarrow> Some (f im)) = Some (w1, r1) \<Longrightarrow>
   w1 = w \<or> (\<exists>im. f im = (w1, r1))"
  by (cases m) (auto split: sum.splits)

lemma run_job_trace:
  assumes "run_job cd env w0 input_file output_file font_file quality options overwrite = Some (w1, r)"
  shows "trace w1 = Run_job input_file output_file font_file quality options overwrite # trace w0
       \<or> (\<exists>path. trace w1 = Open_write path
              # Run_job input_file output_file font_file quality options overwrite # trace w0)"
proof -
  let ?w = "w0\<lparr>trace := Run_job input_file output_file font_file quality options overwrite # trace w0\<rparr>"
  have tr: "trace ?w = Run_job input_file output_file font_file quality options overwrite # trace w0"
    by simp
  have "w1 = ?w \<or> (\<exists>im. save_image cd ?w im output_file quality = (w1, r))
      \<or> (\<exists>im. overlay cd ?w input_file im output_file overwrite = (w1, r))"
  proof (cases "lower (splitext_ext input_file) \<in> set image_exts")
    case True
    show ?thesis
    proof (cases "open_image cd ?w input_file")
      case (Inl e)
      with True assms show ?thesis by (simp add: run_job_def Let_def)
    next
      case (Inr input_image)
      with True assms have "Option.bind (call_add_watermark env input_image font_file options)
          (\<lambda>r. case r of Inl e \<Rightarrow> Some (?w, Some e)
                | Inr output_image \<Rightarrow> Some (save_image cd ?w output_image output_file quality))
          = Some (w1, r)"
        by (simp add: run_job_def Let_def)
      from bind_job_Some [OF this] show ?thesis by blast
    qed
  next
    case False
    show ?thesis
    proof (cases "lower (splitext_ext input_file) \<in> set video_exts")
      case notvideo: False
      with False assms show ?thesis by (simp add: run_job_def Let_def)
    next
      case True
      show ?thesis
      proof (cases "probe cd ?w input_file")
        case (Inl e)
        with True False assms show ?thesis by (simp add: run_job_def Let_def)
      next
        case (Inr dims)
        obtain width height where dims: "dims = (width, height)" by (cases dims)
        with Inr True False assms
        have "Option.bind (call_add_watermark env (image_new (width, height) (255, 255, 255, 0))
              font_file options)
            (\<lambda>r. case r of Inl e \<Rightarrow> Some (?w, Some e)
                  | Inr output_image \<Rightarrow>
                      Some (overlay cd ?w input_file output_image output_file overwrite))
            = Some (w1, r)"
          by (simp add: run_job_def Let_def)
        from bind_job_Some [OF this] show ?thesis by blast
      qed
    qed
  qed
  then show ?thesis
    using save_image_trace [of cd ?w _ output_file quality w1 r]
      overlay_trace [of cd ?w input_file _ output_file overwrite w1 r] tr
    by metis
qed

lemma distinct_jobs_refl:
  "\<exists>new. trace w = new @ trace w \<and> list_all job_paths_differ new"
  by (intro exI [of _ "[]"]) simp

lemma distinct_jobs_trans:
  assumes "\<exists>new. trace w1 = new @ trace w \<and> list_all job_paths_differ new"
    and "\<exists>new. trace w2 = new @ trace w1 \<and> list_all job_paths_differ new"
  shows "\<exists>new. trace w2 = new @ trace w \<and> list_all job_paths_differ new"
proof -
  from assms obtain n1 n2 where
    "trace w1 = n1 @ trace w" "list_all job_paths_differ n1"
    "trace w2 = n2 @ trace w1" "list_all job_paths_differ n2"
    by blast
  then show ?thesis
    by (intro exI [of _ "n2 @ n1"]) simp
qed

lemma run_job_distinct:
  assumes run: "run_job cd env w input_file output_file font_file quality options overwrite = Some (w1, r)"
    and ne: "output_file \<noteq> JStr input_file"
  shows "\<exists>new. trace w1 = new @ trace w \<and> list_all job_paths_differ new"
proof -
  from run_job_trace [OF run]
  consider "trace w1 = [Run_job input_file output_file font_file quality options overwrite] @ trace w"
    | path where "trace w1 = [Open_write path,
        Run_job input_file output_file font_file quality options overwrite] @ trace w"
    by auto
  then show ?thesis
  proof cases
    case 1
    with ne show ?thesis
      by (intro exI [of _ "[Run_job input_file output_file font_file quality options overwrite]"]) simp
  next
    case 2
    with ne show ?thesis
      by (intro exI [of _ "[Open_write path,
        Run_job input_file output_file font_file quality options overwrite]"]) simp
  qed
qed

lemma write_file_distinct:
  "\<exists>new. trace (write_file w path c) = new @ trace w \<and> list_all job_paths_differ new"
  by (intro exI [of _ "[Open_write path]"]) (simp add: write_file_def)

subsection \<open>The branches of single mode and of a batch job\<close>

lemma key_neq [simp]:
  "str ''font_family'' \<noteq> str ''output_file''" "str ''font_family'' \<noteq> str ''quality''"
  "str ''output_file'' \<noteq> str ''quality''" "str ''output_file'' \<noteq> str ''font_family''"
  "str ''quality'' \<noteq> str ''font_family''" "str ''quality'' \<noteq> str ''output_file''"
  by (simp_all add: str_def)

lemma batch_job_same_path:
  assumes sidecar: "files w (path @ str ''.json'') = Some (Json_object options)"
    and out: "map_of options (str ''output_file'') = Some (JStr path)"
  shows "batch_job cd env w path =
     (case map_of options (str ''font_family'') of
        None \<Rightarrow> Some (w, Some KeyError)
      | Some family \<Rightarrow>
          (case get_font_value w family of
             None \<Rightarrow> None
           | Some (Inl e) \<Rightarrow> Some (w, Some e)
           | Some (Inr font_file) \<Rightarrow>
               Some (w, Some (if map_of options (str ''quality'') = None then KeyError
                              else IOError_same_file))))"
proof (cases "map_of options (str ''font_family'')")
  case None
  with sidecar show ?thesis
    by (simp add: batch_job_def dict_pop_def)
next
  case (Some family)
  show ?thesis
  proof (cases "get_font_value w family")
    case None
    with Some sidecar show ?thesis
      by (simp add: batch_job_def dict_pop_def)
  next
    case font: (Some r)
    show ?thesis
    proof (cases r)
      case (Inl e)
      with font Some sidecar show ?thesis
        by (simp add: batch_job_def dict_pop_def)
    next
      case (Inr font_file)
      with font Some sidecar out show ?thesis
        by (cases "map_of options (str ''quality'')")
          (simp_all add: batch_job_def dict_pop_def delete_conv)
    qed
  qed
qed

lemma bind_outcome_id:
  "Option.bind (m :: outcome) (\<lambda>(w, r). case r of Some e \<Rightarrow> Some (w, Some e) | None \<Rightarrow> Some (w, None)) = m"
  by (cases m) (auto split: option.splits)

lemma main_batch_one_file:
  "path \<noteq> str ''.'' \<Longrightarrow>
   main cd env w [] position font_family font_size opacity line_spacing shadow_offset
     shadow_blur_radius None None quality [path] = batch_job cd env w path"
  by (simp add: main_def bind_outcome_id)

lemma main_single_run:
  assumes "text \<noteq> []" "input_file \<noteq> output_file"
    and "get_font w font_family = Some (Inr font_file)"
  shows "main_single cd env w text position font_family font_size opacity line_spacing
       shadow_offset shadow_blur_radius (Some input_file) (Some output_file) quality =
     (case run_job cd env w input_file (JStr output_file) font_file (JInt quality)
             (style_options (join_lines text) position font_size opacity line_spacing
                shadow_offset shadow_blur_radius) False of
        None \<Rightarrow> None
      | Some (w2, Some e) \<Rightarrow> Some (w2, Some e)
      | Some (w2, None) \<Rightarrow>
          Some (write_file w2 (input_file @ str ''.json'')
                  (Json_object
                     (dict_set (dict_set (dict_set
                        (style_options (join_lines text) position font_size opacity line_spacing
                           shadow_offset shadow_blur_radius)
                        (str ''font_family'') (JStr font_family))
                        (str ''output_file'') (JStr output_file))
                        (str ''quality'') (JInt quality))), None))"
  using assms
  by (cases "run_job cd env w input_file (JStr output_file) font_file (JInt quality)
             (style_options (join_lines text) position font_size opacity line_spacing
                shadow_offset shadow_blur_radius) False")
    (auto simp: main_single_def Let_def split: option.splits)

lemma main_single_no_run:
  assumes "input_file = None \<or> output_file = None \<or> text = [] \<or> input_file = output_file
     \<or> (\<exists>e. get_font w font_family = Some (Inl e))"
  shows "\<exists>e. main_single cd env w text position font_family font_size opacity line_spacing
       shadow_offset shadow_blur_radius input_file output_file quality = Some (w, Some e)"
  using assms
  by (cases input_file; cases output_file) (auto simp: main_single_def Let_def)

lemma main_single_hangs:
  assumes "text \<noteq> []" "input_file \<noteq> output_file" and "get_font w font_family = None"
  shows "main_single cd env w text position font_family font_size opacity line_spacing
       shadow_offset shadow_blur_radius (Some input_file) (Some output_file) quality = None"
  using assms by (simp add: main_single_def Let_def)

lemma main_single_distinct:
  assumes run: "main_single cd env w text position font_family font_size opacity line_spacing
       shadow_offset shadow_blur_radius input_file output_file quality = Some (w1, r)"
  shows "\<exists>new. trace w1 = new @ trace w \<and> list_all job_paths_differ new"
proof (cases "input_file = None \<or> output_file = None \<or> text = [] \<or> input_file = output_file
     \<or> (\<exists>e. get_font w font_family = Some (Inl e))")
  case True
  from main_single_no_run [OF True, of cd env position font_size opacity line_spacing
      shadow_offset shadow_blur_radius quality] run
  have "w1 = w" by auto
  then show ?thesis by (simp add: distinct_jobs_refl)
next
  case False
  then obtain inp outp where
    io: "input_file = Some inp" "output_file = Some outp" "text \<noteq> []" "inp \<noteq> outp" and
    noerr: "\<And>e. get_font w font_family \<noteq> Some (Inl e)"
    by auto
  show ?thesis
  proof (cases "get_font w font_family")
    case None
    from main_single_hangs [OF io(3,4) None] run io show ?thesis by simp
  next
    case (Some found)
    with noerr obtain font_file where font: "get_font w font_family = Some (Inr font_file)"
      by (cases found) auto
    let ?options = "style_options (join_lines text) position font_size opacity line_spacing
        shadow_offset shadow_blur_radius"
    note eq = main_single_run [OF io(3,4) font, of cd env position font_size opacity
        line_spacing shadow_offset shadow_blur_radius quality]
    from io have ne: "JStr outp \<noteq> JStr inp" by simp
    show ?thesis
    proof (cases "run_job cd env w inp (JStr outp) font_file (JInt quality) ?options False")
      case None
      with run io eq show ?thesis by simp
    next
      case job: (Some res)
      obtain w2 r2 where res: "res = (w2, r2)" by (cases res)
      from run_job_distinct [OF job [unfolded res] ne]
      have step1: "\<exists>new. trace w2 = new @ trace w \<and> list_all job_paths_differ new" .
      show ?thesis
      proof (cases r2)
        case (Some e)
        with job res run io eq have "w1 = w2" by simp
        with step1 show ?thesis by simp
      next
        case None
        with job res run io eq obtain c where "w1 = write_file w2 (inp @ str ''.json'') c"
          by auto
        with write_file_distinct [of w2 "inp @ str ''.json''" c]
        have "\<exists>new. trace w1 = new @ trace w2 \<and> list_all job_paths_differ new"
          by simp
        with step1 show ?thesis by (rule distinct_jobs_trans)
      qed
    qed
  qed
qed

lemma batch_job_cases:
  "(\<exists>r. batch_job cd env w input_file = Some (w, r))
   \<or> batch_job cd env w input_file = None
   \<or> (\<exists>output_file font_file quality options.
        output_file \<noteq> JStr input_file
        \<and> batch_job cd env w input_file
            = run_job cd env w input_file output_file font_file quality options True)"
proof (cases "files w (input_file @ str ''.json'')")
  case None
  then have "batch_job cd env w input_file = Some (w, None)"
    by (simp add: batch_job_def)
  then show ?thesis by blast
next
  case (Some c)
  show ?thesis
  proof (cases c)
    case (Binary n)
    with Some have "batch_job cd env w input_file = Some (w, Some JSONDecodeError)"
      by (simp add: batch_job_def)
    then show ?thesis by blast
  next
    case Json_other
    with Some have "batch_job cd env w input_file = Some (w, Some TypeError)"
      by (simp add: batch_job_def)
    then show ?thesis by blast
  next
    case (Json_object options)
    with Some have sidecar: "files w (input_file @ str ''.json'') = Some (Json_object options)"
      by simp
    show ?thesis
    proof (cases "dict_pop options (str ''font_family'')")
      case (Inl e)
      with sidecar have "batch_job cd env w input_file = Some (w, Some e)"
        by (simp add: batch_job_def)
      then show ?thesis by blast
    next
      case (Inr popped)
      obtain family options1 where popped: "popped = (family, options1)" by (cases popped)
      with Inr have pop1: "dict_pop options (str ''font_family'') = Inr (family, options1)"
        by simp
      show ?thesis
      proof (cases "get_font_value w family")
        case None
        with sidecar pop1 have "batch_job cd env w input_file = None"
          by (simp add: batch_job_def)
        then show ?thesis by blast
      next
        case font: (Some found)
        show ?thesis
        proof (cases found)
          case (Inl e)
          with font sidecar pop1 have "batch_job cd env w input_file = Some (w, Some e)"
            by (simp add: batch_job_def)
          then show ?thesis by blast
        next
          case (Inr font_file)
          with font have found: "get_font_value w family = Some (Inr font_file)" by simp
          show ?thesis
          proof (cases "dict_pop options1 (str ''output_file'')")
            case (Inl e)
            with found sidecar pop1 have "batch_job cd env w input_file = Some (w, Some e)"
              by (simp add: batch_job_def)
            then show ?thesis by blast
          next
            case (Inr popped2)
            obtain output_file options2 where "popped2 = (output_file, options2)"
              by (cases popped2)
            with Inr have pop2: "dict_pop options1 (str ''output_file'') = Inr (output_file, options2)"
              by simp
            show ?thesis
            proof (cases "dict_pop options2 (str ''quality'')")
              case (Inl e)
              with pop2 found sidecar pop1
              have "batch_job cd env w input_file = Some (w, Some e)"
                by (simp add: batch_job_def)
              then show ?thesis by blast
            next
              case (Inr popped3)
              obtain quality options3 where "popped3 = (quality, options3)"
                by (cases popped3)
              with Inr have pop3: "dict_pop options2 (str ''quality'') = Inr (quality, options3)"
                by simp
              show ?thesis
              proof (cases "JStr input_file = output_file")
                case True
                with pop3 pop2 found sidecar pop1
                have "batch_job cd env w input_file = Some (w, Some IOError_same_file)"
                  by (simp add: batch_job_def)
                then show ?thesis by blast
              next
                case False
                with pop3 pop2 found sidecar pop1
                have "batch_job cd env w input_file
                    = run_job cd env w input_file output_file font_file quality options3 True"
                  by (simp add: batch_job_def)
                moreover from False have "output_file \<noteq> JStr input_file" by auto
                ultimately show ?thesis by blast
              qed
            qed
          qed
        qed
      qed
    qed
  qed
qed

lemma batch_job_distinct:
  assumes run: "batch_job cd env w input_file = Some (w1, r)"
  shows "\<exists>new. trace w1 = new @ trace w \<and> list_all job_paths_differ new"
  using batch_job_cases [of cd env w input_file]
proof (elim disjE exE conjE)
  fix r2
  assume "batch_job cd env w input_file = Some (w, r2)"
  with run have "Some (w1, r) = Some (w, r2)" by (rule trans [OF sym])
  then have "w1 = w" by simp
  then show ?thesis by (simp add: distinct_jobs_refl)
next
  assume "batch_job cd env w input_file = None"
  with run have "Some (w1, r) = None" by (rule trans [OF sym])
  then show ?thesis by simp
next
  fix output_file font_file quality options
  assume ne: "output_file \<noteq> JStr input_file"
    and "batch_job cd env w input_file
           = run_job cd env w input_file output_file font_file quality options True"
  then have "run_job cd env w input_file output_file font_file quality options True
      = batch_job cd env w input_file"
    by (rule_tac sym)
  also note run
  finally show ?thesis using ne by (rule run_job_distinct)
qed

lemma batch_loop_distinct:
  "batch_loop cd env w batch_files = Some (w1, r) \<Longrightarrow>
   \<exists>new. trace w1 = new @ trace w \<and> list_all job_paths_differ new"
proof (induction batch_files arbitrary: w)
  case Nil
  then show ?case by (simp add: distinct_jobs_refl)
next
  case (Cons input_file rest)
  show ?case
  proof (cases "batch_job cd env w input_file")
    case None
    with Cons.prems show ?thesis by simp
  next
    case (Some res)
    obtain w2 r2 where res: "res = (w2, r2)" by (cases res)
    note step1 = batch_job_distinct [OF Some [unfolded res]]
    show ?thesis
    proof (cases r2)
      case None
      with Some res Cons.prems have "batch_loop cd env w2 rest = Some (w1, r)" by simp
      from step1 Cons.IH [OF this] show ?thesis by (rule distinct_jobs_trans)
    next
      case (Some e)
      with \<open>batch_job cd env w input_file = Some res\<close> res Cons.prems have "w1 = w2" by simp
      with step1 show ?thesis by simp
    qed
  qed
qed

lemma main_distinct:
  assumes run: "main cd env w text position font_family font_size opacity line_spacing
       shadow_offset shadow_blur_radius input_file output_file quality batch_files = Some (w1, r)"
  shows "\<exists>new. trace w1 = new @ trace w \<and> list_all job_paths_differ new"
proof (cases "batch_files = []")
  case True
  with run have "main_single cd env w text position font_family font_size opacity line_spacing
       shadow_offset shadow_blur_radius input_file output_file quality = Some (w1, r)"
    by (simp add: main_def)
  then show ?thesis by (rule main_single_distinct)
next
  case False
  let ?listing = "if batch_files = [str ''.''] then
      (case dirs w (str ''.'') of None \<Rightarrow> Inl OSError | Some names \<Rightarrow> Inr names)
    else Inr batch_files"
  from False have eq: "main cd env w text position font_family font_size opacity line_spacing
       shadow_offset shadow_blur_radius input_file output_file quality batch_files =
     (case ?listing of
        Inl e \<Rightarrow> Some (w, Some e)
      | Inr names \<Rightarrow>
          if text \<noteq> [] \<or> input_file \<noteq> None \<or> output_file \<noteq> None
          then Some (w, Some ValueError_mode)
          else batch_loop cd env w names)"
    unfolding main_def by (simp only: if_True if_False not_False_eq_True)
  show ?thesis
  proof (cases ?listing)
    case (Inl e)
    with run have "w1 = w" unfolding eq by simp
    then show ?thesis by (simp add: distinct_jobs_refl)
  next
    case (Inr names)
    show ?thesis
    proof (cases "text \<noteq> [] \<or> input_file \<noteq> None \<or> output_file \<noteq> None")
      case True
      with Inr run have "w1 = w" unfolding eq by simp
      then show ?thesis by (simp add: distinct_jobs_refl)
    next
      case False
      with Inr run have "batch_loop cd env w names = Some (w1, r)" unfolding eq by simp
      then show ?thesis by (rule batch_loop_distinct)
    qed
  qed
qed

subsection \<open>The sidecar file\<close>

lemma sidecar_dict:
  "dict_set (dict_set (dict_set
      (style_options text position font_size opacity line_spacing shadow_offset shadow_blur_radius)
      (str ''font_family'') (JStr font_family))
      (str ''output_file'') (JStr output_file))
      (str ''quality'') (JInt quality)
   = style_options text position font_size opacity line_spacing shadow_offset shadow_blur_radius
     @ [(str ''font_family'', JStr font_family), (str ''output_file'', JStr output_file),
        (str ''quality'', JInt quality)]"
  by (simp add: dict_set_def style_options_def str_def)

lemma sidecar_pops:
  "dict_pop ((style_options text position font_size opacity line_spacing shadow_offset
            shadow_blur_radius) @ [(str ''font_family'', JStr font_family),
            (str ''output_file'', JStr output_file), (str ''quality'', JInt quality)])
          (str ''font_family'')
        = Inr (JStr font_family,
               (style_options text position font_size opacity line_spacing shadow_offset
            shadow_blur_radius) @ [(str ''output_file'', JStr output_file), (str ''quality'', JInt quality)])"
  "dict_pop ((style_options text position font_size opacity line_spacing shadow_offset
            shadow_blur_radius) @ [(str ''output_file'', JStr output_file), (str ''quality'', JInt quality)])
          (str ''output_file'')
        = Inr (JStr output_file, (style_options text position font_size opacity line_spacing shadow_offset
            shadow_blur_radius) @ [(str ''quality'', JInt quality)])"
  "dict_pop ((style_options text position font_size opacity line_spacing shadow_offset
            shadow_blur_radius) @ [(str ''quality'', JInt quality)]) (str ''quality'') = Inr (JInt quality, (style_options text position font_size opacity line_spacing shadow_offset
            shadow_blur_radius))"
  by (simp_all add: dict_pop_def style_options_def str_def AList.delete_eq)

lemma call_style_options:
  "call_add_watermark env im font_file
     (style_options text position font_size opacity line_spacing shadow_offset shadow_blur_radius)
   = add_watermark env im text position font_file font_size opacity line_spacing shadow_offset
       shadow_blur_radius default_shadow_color"
proof (cases "parse_position position")
  case (Inl e)
  then show ?thesis
    by (simp add: call_add_watermark_def style_options_def known_options_def str_def
        add_watermark_def split: prod.split)
next
  case (Inr hv)
  then show ?thesis
    by (simp add: call_add_watermark_def style_options_def known_options_def str_def)
qed


lemma main_single_success:
  assumes run: "main_single cd env w text position font_family font_size opacity line_spacing
       shadow_offset shadow_blur_radius (Some input_file) (Some output_file) quality
     = Some (w1, None)"
  shows "\<exists>font_file w2. text \<noteq> [] \<and> input_file \<noteq> output_file
     \<and> get_font w font_family = Some (Inr font_file)
     \<and> run_job cd env w input_file (JStr output_file) font_file (JInt quality)
           (style_options (join_lines text) position font_size opacity line_spacing
              shadow_offset shadow_blur_radius) False = Some (w2, None)
     \<and> w1 = write_file w2 (input_file @ str ''.json'')
            (Json_object
               (style_options (join_lines text) position font_size opacity line_spacing
                  shadow_offset shadow_blur_radius
                @ [(str ''font_family'', JStr font_family),
                   (str ''output_file'', JStr output_file), (str ''quality'', JInt quality)]))"
proof -
  have ok: "\<not> (Some input_file = None \<or> Some output_file = None \<or> text = []
      \<or> Some input_file = Some output_file \<or> (\<exists>e. get_font w font_family = Some (Inl e)))"
  proof
    assume bad: "Some input_file = None \<or> Some output_file = None \<or> text = []
      \<or> Some input_file = Some output_file \<or> (\<exists>e. get_font w font_family = Some (Inl e))"
    from main_single_no_run [OF bad, of cd env position font_size opacity line_spacing
        shadow_offset shadow_blur_radius quality] run
    show False by auto
  qed
  then have nonempty: "text \<noteq> []" and ne: "input_file \<noteq> output_file"
    and noerr: "\<And>e. get_font w font_family \<noteq> Some (Inl e)"
    by auto
  have "get_font w font_family \<noteq> None"
  proof
    assume "get_font w font_family = None"
    from main_single_hangs [OF nonempty ne this, of cd env position font_size opacity line_spacing
        shadow_offset shadow_blur_radius quality] run
    show False by simp
  qed
  with noerr obtain font_file where font: "get_font w font_family = Some (Inr font_file)"
    by (cases "get_font w font_family") (auto, metis sum.exhaust)
  let ?options = "style_options (join_lines text) position font_size opacity line_spacing
      shadow_offset shadow_blur_radius"
  note eq = main_single_run [OF nonempty ne font, of cd env position font_size opacity
      line_spacing shadow_offset shadow_blur_radius quality]
  show ?thesis
  proof (cases "run_job cd env w input_file (JStr output_file) font_file (JInt quality)
      ?options False")
    case None
    with run eq show ?thesis by simp
  next
    case (Some res)
    obtain w2 r2 where res: "res = (w2, r2)" by (cases res)
    show ?thesis
    proof (cases r2)
      case (Some e)
      with \<open>run_job cd env w input_file (JStr output_file) font_file (JInt quality)
          ?options False = Some res\<close> res run eq
      show ?thesis by simp
    next
      case None
      with \<open>run_job cd env w input_file (JStr output_file) font_file (JInt quality)
          ?options False = Some res\<close> res run eq
      have "w1 = write_file w2 (input_file @ str ''.json'')
            (Json_object (?options @ [(str ''font_family'', JStr font_family),
                   (str ''output_file'', JStr output_file), (str ''quality'', JInt quality)]))"
        and "run_job cd env w input_file (JStr output_file) font_file (JInt quality)
          ?options False = Some (w2, None)"
        by (simp_all add: sidecar_dict)
      with nonempty ne font show ?thesis by blast
    qed
  qed
qed

lemma batch_job_replay:
  assumes sidecar: "files w (input_file @ str ''.json'')
      = Some (Json_object
          (style_options text position font_size opacity line_spacing shadow_offset
             shadow_blur_radius
           @ [(str ''font_family'', JStr font_family),
              (str ''output_file'', JStr output_file), (str ''quality'', JInt quality)]))"
    and ne: "input_file \<noteq> output_file"
  shows "batch_job cd env w input_file =
     (case get_font w font_family of
        None \<Rightarrow> None
      | Some (Inl e) \<Rightarrow> Some (w, Some e)
      | Some (Inr font_file) \<Rightarrow>
          run_job cd env w input_file (JStr output_file) font_file (JInt quality)
            (style_options text position font_size opacity line_spacing shadow_offset
               shadow_blur_radius) True)"
proof (cases "get_font w font_family")
  case None
  with sidecar show ?thesis
    by (simp add: batch_job_def sidecar_pops get_font_value_def)
next
  case (Some found)
  show ?thesis
  proof (cases found)
    case (Inl e)
    with Some sidecar show ?thesis
      by (simp add: batch_job_def sidecar_pops get_font_value_def)
  next
    case (Inr font_file)
    with Some sidecar ne show ?thesis
      by (simp add: batch_job_def sidecar_pops get_font_value_def)
  qed
qed

lemma add_watermark_returns:
  assumes "parse_position position = Inr hv"
    and "auto_size (truetype_error env font_file) (getsize env font_file)
      (im_size input_image) font_size = Some (Inr r)"
  shows "\<exists>im. add_watermark env input_image text position font_file font_size opacity
      line_spacing shadow_offset shadow_blur_radius shadow_color = Some (Inr im)"
  using assms
  by (cases hv; cases r) (simp add: add_watermark_def Let_def split: prod.split)

lemma example_watermark:
  "\<exists>im. call_add_watermark example_pil example_photo font_file
      (style_options (str ''hi'') (str ''right bottom'') 1 (3 / 4) (1 / 5) (1 / 25) (1 / 20))
    = Some (Inr im)"
proof -
  have "parse_position (str ''right bottom'') = Inr (- 1, - 1)"
    by (simp add: parse_position_def str_def is_space_def)
  moreover have "auto_size (truetype_error example_pil font_file) (getsize example_pil font_file)
      (im_size example_photo) 1 = Some (Inr (4, 4))"
    by (simp add: example_sizes
        example_photo_def image_new_def)
  ultimately show ?thesis
    unfolding call_style_options by (rule add_watermark_returns)
qed

lemma example_job:
  "run_job example_codecs example_pil example_world (str ''a.jpg'') (JStr (str ''b.jpg''))
     font_file (JInt 95)
     (style_options (str ''hi'') (str ''right bottom'') 1 (3 / 4) (1 / 5) (1 / 25) (1 / 20)) False
   = Some (write_file
       (example_world\<lparr>trace := [Run_job (str ''a.jpg'') (JStr (str ''b.jpg'')) font_file (JInt 95)
          (style_options (str ''hi'') (str ''right bottom'') 1 (3 / 4) (1 / 5) (1 / 25) (1 / 20))
          False]\<rparr>)
       (str ''b.jpg'') (Binary 2), None)"
proof -
  from example_watermark [of font_file] obtain im where
    im: "call_add_watermark example_pil example_photo font_file
      (style_options (str ''hi'') (str ''right bottom'') 1 (3 / 4) (1 / 5) (1 / 25) (1 / 20))
    = Some (Inr im)" ..
  have ext: "lower (splitext_ext (str ''a.jpg'')) \<in> set image_exts"
    by (simp add: lower_def splitext_ext_def image_exts_def str_def)
  have opened: "\<And>t. open_image example_codecs (example_world\<lparr>trace := t\<rparr>) (str ''a.jpg'')
      = Inr example_photo"
    by (simp add: open_image_def example_world_def example_codecs_def str_def)
  have tr: "trace example_world = []" by (simp add: example_world_def)
  have saved: "\<And>w im p q. save_image example_codecs w im (JStr p) q
      = (write_file w p (Binary 2), None)"
    by (simp add: save_image_def example_codecs_def)
  show ?thesis
    by (simp add: run_job_def Let_def ext opened im saved tr)
qed

lemma example_run:
  "main example_codecs example_pil example_world [str ''hi''] (str ''right bottom'') (str ''F'')
       1 (3 / 4) (1 / 5) (1 / 25) (1 / 20) (Some (str ''a.jpg'')) (Some (str ''b.jpg'')) 95 []
   = Some (write_file (write_file
       (example_world\<lparr>trace := [Run_job (str ''a.jpg'') (JStr (str ''b.jpg''))
          (str ''/System/Library/Fonts/F.ttf'') (JInt 95)
          (style_options (str ''hi'') (str ''right bottom'') 1 (3 / 4) (1 / 5) (1 / 25) (1 / 20))
          False]\<rparr>)
       (str ''b.jpg'') (Binary 2))
       (str ''a.jpg'' @ str ''.json'')
       (Json_object
          (style_options (str ''hi'') (str ''right bottom'') 1 (3 / 4) (1 / 5) (1 / 25) (1 / 20)
           @ [(str ''font_family'', JStr (str ''F'')), (str ''output_file'', JStr (str ''b.jpg'')),
              (str ''quality'', JInt 95)])), None)"
proof -
  have ne: "str ''a.jpg'' \<noteq> str ''b.jpg''" by (simp add: str_def)
  have nonempty: "[str ''hi''] \<noteq> []" by simp
  from main_single_run [OF nonempty ne example_font, of example_codecs example_pil
      "str ''right bottom''" 1 "3 / 4" "1 / 5" "1 / 25" "1 / 20" 95]
  show ?thesis
    by (simp add: main_def example_job sidecar_dict)
qed

text \<open>
  C6. After a single-mode run on \<open>input_file\<close> that succeeded, the sidecar
  \<open>input_file.json\<close> holds the style options the run passed to the job runner (the joined
  text, position, font size, opacity, line spacing, shadow offset and shadow blur
  radius) followed by the font family, the output file and the quality. A batch job on
  \<open>input_file\<close> then pops these three and calls the job runner with exactly the options
  of the single run, the same output file and quality, and the font of the same family;
  and these options make the job runner call the compositor with the same text,
  position, font size, opacity, line spacing and shadow parameters, from which the size,
  margin and spacing are computed.
\<close>

theorem sidecar_round_trip:
  assumes run: "main cd env w text position font_family font_size opacity line_spacing
       shadow_offset shadow_blur_radius (Some input_file) (Some output_file) quality []
     = Some (w1, None)"
  shows "files w1 (input_file @ str ''.json'')
      = Some (Json_object
          (style_options (join_lines text) position font_size opacity line_spacing
             shadow_offset shadow_blur_radius
           @ [(str ''font_family'', JStr font_family),
              (str ''output_file'', JStr output_file), (str ''quality'', JInt quality)]))
    \<and> (\<exists>font_file.
          Run_job input_file (JStr output_file) font_file (JInt quality)
            (style_options (join_lines text) position font_size opacity line_spacing
               shadow_offset shadow_blur_radius) False \<in> set (trace w1))
    \<and> batch_job cd env w1 input_file =
        (case get_font w1 font_family of
           None \<Rightarrow> None
         | Some (Inl e) \<Rightarrow> Some (w1, Some e)
         | Some (Inr font_file) \<Rightarrow>
             run_job cd env w1 input_file (JStr output_file) font_file (JInt quality)
               (style_options (join_lines text) position font_size opacity line_spacing
                  shadow_offset shadow_blur_radius) True)
    \<and> call_add_watermark env input_image font_file
         (style_options (join_lines text) position font_size opacity line_spacing
            shadow_offset shadow_blur_radius)
       = add_watermark env input_image (join_lines text) position font_file font_size opacity
           line_spacing shadow_offset shadow_blur_radius default_shadow_color"
proof -
  let ?options = "style_options (join_lines text) position font_size opacity line_spacing
      shadow_offset shadow_blur_radius"
  let ?sidecar = "Json_object (?options @ [(str ''font_family'', JStr font_family),
      (str ''output_file'', JStr output_file), (str ''quality'', JInt quality)])"
  from run have "main_single cd env w text position font_family font_size opacity line_spacing
       shadow_offset shadow_blur_radius (Some input_file) (Some output_file) quality
     = Some (w1, None)"
    by (simp add: main_def)
  from main_single_success [OF this] obtain font_file2 w2 where
    ne: "input_file \<noteq> output_file" and
    job: "run_job cd env w input_file (JStr output_file) font_file2 (JInt quality) ?options False
      = Some (w2, None)" and
    w1: "w1 = write_file w2 (input_file @ str ''.json'') ?sidecar"
    by blast
  from w1 have written: "files w1 (input_file @ str ''.json'') = Some ?sidecar"
    by (simp add: write_file_def)
  from run_job_trace [OF job] w1
  have "Run_job input_file (JStr output_file) font_file2 (JInt quality) ?options False
      \<in> set (trace w1)"
    by (auto simp: write_file_def)
  then have called: "\<exists>font_file.
      Run_job input_file (JStr output_file) font_file (JInt quality) ?options False
        \<in> set (trace w1)" ..
  note replay = batch_job_replay [OF written ne, of cd env]
  from written called replay call_style_options [of env input_image font_file "join_lines text"
      position font_size opacity line_spacing shadow_offset shadow_blur_radius]
  show ?thesis by (intro conjI)
qed

theorem sidecar_round_trip_witness:
  "\<exists>w1. main example_codecs example_pil example_world [str ''hi''] (str ''right bottom'')
          (str ''F'') 1 (3 / 4) (1 / 5) (1 / 25) (1 / 20) (Some (str ''a.jpg''))
          (Some (str ''b.jpg'')) 95 [] = Some (w1, None)
     \<and> files w1 (str ''a.jpg.json'')
         = Some (Json_object
             (style_options (str ''hi'') (str ''right bottom'') 1 (3 / 4) (1 / 5) (1 / 25) (1 / 20)
              @ [(str ''font_family'', JStr (str ''F'')),
                 (str ''output_file'', JStr (str ''b.jpg'')), (str ''quality'', JInt 95)]))
     \<and> batch_job example_codecs example_pil w1 (str ''a.jpg'')
         = run_job example_codecs example_pil w1 (str ''a.jpg'') (JStr (str ''b.jpg''))
             (str ''/System/Library/Fonts/F.ttf'') (JInt 95)
             (style_options (str ''hi'') (str ''right bottom'') 1 (3 / 4) (1 / 5) (1 / 25) (1 / 20))
             True"
proof -
  let ?options = "style_options (str ''hi'') (str ''right bottom'') 1 (3 / 4) (1 / 5) (1 / 25)
      (1 / 20)"
  let ?w1 = "write_file (write_file
       (example_world\<lparr>trace := [Run_job (str ''a.jpg'') (JStr (str ''b.jpg''))
          (str ''/System/Library/Fonts/F.ttf'') (JInt 95) ?options False]\<rparr>)
       (str ''b.jpg'') (Binary 2))
       (str ''a.jpg'' @ str ''.json'')
       (Json_object
          (?options
           @ [(str ''font_family'', JStr (str ''F'')), (str ''output_file'', JStr (str ''b.jpg'')),
              (str ''quality'', JInt 95)]))"
  have run: "main example_codecs example_pil example_world [str ''hi''] (str ''right bottom'')
          (str ''F'') 1 (3 / 4) (1 / 5) (1 / 25) (1 / 20) (Some (str ''a.jpg''))
          (Some (str ''b.jpg'')) 95 [] = Some (?w1, None)"
    using example_run by simp
  have one: "join_lines [str ''hi''] = str ''hi''" by simp
  note trip = sidecar_round_trip [OF run, where input_image = example_photo and font_file = "[]",
      unfolded one]
  have font: "get_font ?w1 (str ''F'') = Some (Inr (str ''/System/Library/Fonts/F.ttf''))"
    by (simp add: get_font_def search_names_def strip_def is_space_def str_def traverse_dir_def
        traverse.simps search_exts_def path_join_def isfile_def isdir_def example_world_def
        write_file_def)
  have name: "str ''a.jpg'' @ str ''.json'' = str ''a.jpg.json''"
    by (simp add: str_def)
  from trip have "files ?w1 (str ''a.jpg'' @ str ''.json'')
      = Some (Json_object (?options @ [(str ''font_family'', JStr (str ''F'')),
           (str ''output_file'', JStr (str ''b.jpg'')), (str ''quality'', JInt 95)]))"
    by (elim conjE)
  then have sidecar: "files ?w1 (str ''a.jpg.json'')
      = Some (Json_object (?options @ [(str ''font_family'', JStr (str ''F'')),
           (str ''output_file'', JStr (str ''b.jpg'')), (str ''quality'', JInt 95)]))"
    by (simp only: name)
  from trip have "batch_job example_codecs example_pil ?w1 (str ''a.jpg'') =
        (case get_font ?w1 (str ''F'') of
           None \<Rightarrow> None
         | Some (Inl e) \<Rightarrow> Some (?w1, Some e)
         | Some (Inr font_file) \<Rightarrow>
             run_job example_codecs example_pil ?w1 (str ''a.jpg'') (JStr (str ''b.jpg''))
               font_file (JInt 95) ?options True)"
    by (elim conjE)
  then have replay: "batch_job example_codecs example_pil ?w1 (str ''a.jpg'')
      = run_job example_codecs example_pil ?w1 (str ''a.jpg'') (JStr (str ''b.jpg''))
          (str ''/System/Library/Fonts/F.ttf'') (JInt 95) ?options True"
    by (simp only: font option.case sum.case)
  from run sidecar replay show ?thesis by blast
qed

subsection \<open>Input and output on the same path\<close>

text \<open>
  C7. In single mode, equal input and output paths end the run with an error and the
  world as it was: nothing on the trace, no file written. In batch mode, a file whose
  sidecar names the file itself as output ends its job with an error and the world as it
  was, unless the font search before the test never returns; a batch of that one file
  is that job. And whatever the arguments, every call of the job runner that a run of
  \<^verbatim>\<open>main\<close> adds to the trace has an output path other than its input path.
\<close>

theorem same_path_never_run:
  "main cd env w text position font_family font_size opacity line_spacing shadow_offset
       shadow_blur_radius (Some path) (Some path) quality []
     = Some (w, Some (if text = [] then ValueError_mode else IOError_same_file))
   \<and> (files w (path @ str ''.json'') = Some (Json_object options)
        \<and> map_of options (str ''output_file'') = Some (JStr path) \<longrightarrow>
      (\<forall>w1 r. batch_job cd env w path = Some (w1, r) \<longrightarrow> w1 = w \<and> r \<noteq> None)
      \<and> (batch_job cd env w path = None \<longrightarrow>
           (\<exists>family. map_of options (str ''font_family'') = Some family
              \<and> get_font_value w family = None))
      \<and> (path \<noteq> str ''.'' \<longrightarrow>
           main cd env w [] position font_family font_size opacity line_spacing shadow_offset
             shadow_blur_radius None None quality [path] = batch_job cd env w path))
   \<and> (\<forall>w1 r. main cd env w text position font_family font_size opacity line_spacing
          shadow_offset shadow_blur_radius input_file output_file quality batch_files
          = Some (w1, r) \<longrightarrow>
        (\<exists>new. trace w1 = new @ trace w \<and> list_all job_paths_differ new))"
proof (intro conjI)
  show "main cd env w text position font_family font_size opacity line_spacing shadow_offset
       shadow_blur_radius (Some path) (Some path) quality []
     = Some (w, Some (if text = [] then ValueError_mode else IOError_same_file))"
    by (simp add: main_def main_single_def)
next
  show "files w (path @ str ''.json'') = Some (Json_object options)
        \<and> map_of options (str ''output_file'') = Some (JStr path) \<longrightarrow>
      (\<forall>w1 r. batch_job cd env w path = Some (w1, r) \<longrightarrow> w1 = w \<and> r \<noteq> None)
      \<and> (batch_job cd env w path = None \<longrightarrow>
           (\<exists>family. map_of options (str ''font_family'') = Some family
              \<and> get_font_value w family = None))
      \<and> (path \<noteq> str ''.'' \<longrightarrow>
           main cd env w [] position font_family font_size opacity line_spacing shadow_offset
             shadow_blur_radius None None quality [path] = batch_job cd env w path)"
  proof (rule impI)
    assume "files w (path @ str ''.json'') = Some (Json_object options)
          \<and> map_of options (str ''output_file'') = Some (JStr path)"
    then have eq: "batch_job cd env w path =
       (case map_of options (str ''font_family'') of
          None \<Rightarrow> Some (w, Some KeyError)
        | Some family \<Rightarrow>
            (case get_font_value w family of
               None \<Rightarrow> None
             | Some (Inl e) \<Rightarrow> Some (w, Some e)
             | Some (Inr font_file) \<Rightarrow>
                 Some (w, Some (if map_of options (str ''quality'') = None then KeyError
                                else IOError_same_file))))"
      by (intro batch_job_same_path) simp_all
    have unchanged: "\<forall>w1 r. batch_job cd env w path = Some (w1, r) \<longrightarrow> w1 = w \<and> r \<noteq> None"
      unfolding eq by (auto split: option.splits sum.splits)
    have diverges: "batch_job cd env w path = None \<longrightarrow>
             (\<exists>family. map_of options (str ''font_family'') = Some family
                \<and> get_font_value w family = None)"
      unfolding eq by (auto split: option.splits sum.splits)
    have whole: "path \<noteq> str ''.'' \<longrightarrow>
             main cd env w [] position font_family font_size opacity line_spacing shadow_offset
               shadow_blur_radius None None quality [path] = batch_job cd env w path"
      by (simp add: main_batch_one_file)
    from unchanged diverges whole
    show "(\<forall>w1 r. batch_job cd env w path = Some (w1, r) \<longrightarrow> w1 = w \<and> r \<noteq> None)
      \<and> (batch_job cd env w path = None \<longrightarrow>
           (\<exists>family. map_of options (str ''font_family'') = Some family
              \<and> get_font_value w family = None))
      \<and> (path \<noteq> str ''.'' \<longrightarrow>
           main cd env w [] position font_family font_size opacity line_spacing shadow_offset
             shadow_blur_radius None None quality [path] = batch_job cd env w path)"
      by blast
  qed
next
  show "\<forall>w1 r. main cd env w text position font_family font_size opacity line_spacing
          shadow_offset shadow_blur_radius input_file output_file quality batch_files
          = Some (w1, r) \<longrightarrow>
        (\<exists>new. trace w1 = new @ trace w \<and> list_all job_paths_differ new)"
    using main_distinct by blast
qed

theorem same_path_never_run_witness:
  "main example_codecs example_pil example_world [str ''hi''] (str ''right bottom'') (str ''F'')
       1 (3 / 4) (1 / 5) (1 / 25) (1 / 20) (Some (str ''a.jpg'')) (Some (str ''a.jpg'')) 95 []
     = Some (example_world, Some IOError_same_file)
   \<and> main example_codecs example_pil example_world [] (str ''right bottom'') (str ''F'')
       1 (3 / 4) (1 / 5) (1 / 25) (1 / 20) None None 95 [str ''c.jpg'']
     = Some (example_world, Some IOError_same_file)
   \<and> (\<exists>w1. main example_codecs example_pil example_world [str ''hi''] (str ''right bottom'')
          (str ''F'') 1 (3 / 4) (1 / 5) (1 / 25) (1 / 20) (Some (str ''a.jpg''))
          (Some (str ''b.jpg'')) 95 [] = Some (w1, None)
        \<and> list_all job_paths_differ (trace w1))"
proof -
  let ?options = "[(str ''font_family'', JStr (str ''F'')),
      (str ''output_file'', JStr (str ''c.jpg'')), (str ''quality'', JInt 95)]"
  note th = same_path_never_run [where cd = example_codecs and env = example_pil
      and w = example_world and position = "str ''right bottom''" and font_family = "str ''F''"
      and font_size = 1 and opacity = "3 / 4" and line_spacing = "1 / 5"
      and shadow_offset = "1 / 25" and shadow_blur_radius = "1 / 20" and quality = 95]
  from th [where ?text = "[str ''hi'']" and path = "str ''a.jpg''"]
  have single: "main example_codecs example_pil example_world [str ''hi''] (str ''right bottom'')
      (str ''F'') 1 (3 / 4) (1 / 5) (1 / 25) (1 / 20) (Some (str ''a.jpg''))
      (Some (str ''a.jpg'')) 95 [] = Some (example_world, Some IOError_same_file)"
    by simp
  have sidecar: "files example_world (str ''c.jpg'' @ str ''.json'') = Some (Json_object ?options)
      \<and> map_of ?options (str ''output_file'') = Some (JStr (str ''c.jpg''))"
    by (simp add: example_world_def str_def)
  have dot: "str ''c.jpg'' \<noteq> str ''.''" by (simp add: str_def)
  from th [where path = "str ''c.jpg''" and options = ?options] sidecar dot
  have unchanged: "\<forall>w1 r. batch_job example_codecs example_pil example_world (str ''c.jpg'')
        = Some (w1, r) \<longrightarrow> w1 = example_world \<and> r \<noteq> None"
    and whole: "main example_codecs example_pil example_world [] (str ''right bottom'')
        (str ''F'') 1 (3 / 4) (1 / 5) (1 / 25) (1 / 20) None None 95 [str ''c.jpg'']
      = batch_job example_codecs example_pil example_world (str ''c.jpg'')"
    by blast+
  have "batch_job example_codecs example_pil example_world (str ''c.jpg'')
      = Some (example_world, Some IOError_same_file)"
    using batch_job_same_path [of example_world "str ''c.jpg''" ?options example_codecs example_pil]
      sidecar example_font
    by (simp add: get_font_value_def str_def)
  with whole have batch: "main example_codecs example_pil example_world [] (str ''right bottom'')
        (str ''F'') 1 (3 / 4) (1 / 5) (1 / 25) (1 / 20) None None 95 [str ''c.jpg'']
      = Some (example_world, Some IOError_same_file)"
    by simp
  from example_run obtain w1 where run: "main example_codecs example_pil example_world
      [str ''hi''] (str ''right bottom'') (str ''F'') 1 (3 / 4) (1 / 5) (1 / 25) (1 / 20)
      (Some (str ''a.jpg'')) (Some (str ''b.jpg'')) 95 [] = Some (w1, None)"
    by blast
  with th [where ?text = "[str ''hi'']" and input_file = "Some (str ''a.jpg'')"
      and output_file = "Some (str ''b.jpg'')" and batch_files = "[]"]
  obtain new where "trace w1 = new @ trace example_world" "list_all job_paths_differ new"
    by blast
  then have "list_all job_paths_differ (trace w1)"
    by (simp add: example_world_def)
  with run have "\<exists>w1. main example_codecs example_pil example_world [str ''hi'']
      (str ''right bottom'') (str ''F'') 1 (3 / 4) (1 / 5) (1 / 25) (1 / 20)
      (Some (str ''a.jpg'')) (Some (str ''b.jpg'')) 95 [] = Some (w1, None)
        \<and> list_all job_paths_differ (trace w1)"
    by blast
  with single batch show ?thesis by (intro conjI)
qed



end
